theory Spec2Isabelle
  imports Main "HOL-Library.Word" "HOL-Library.Sublist"
begin

section \<open>JavaScript values as the front end sees them\<close>

text \<open>
  The model follows \<^verbatim>\<open>frontend/script.js\<close>. A JavaScript string is a sequence of
  UTF-16 code units; \<open>utf16\<close> writes an ASCII literal as such a sequence.

  Numbers: \<open>Fin n\<close> is an integer-valued double, and the three special doubles are kept
  apart. A sum is rounded to the nearest double, as the addition of the script is;
  fractional values are outside the model, and \<open>-0\<close> is identified with \<open>0\<close> (the
  script never tells them apart).
\<close>

type_synonym jsstring = "16 word list"

definition utf16 :: "string \<Rightarrow> jsstring" where
  "utf16 s = map (\<lambda>c. of_nat (of_char c)) s"

datatype jsnum = NaN | NegInf | Fin int | PosInf

datatype jsval =
    JUndefined
  | JNull
  | JBool bool
  | JNum jsnum
  | JStr jsstring
  | JArr "jsval list"
  | JObj "(jsstring \<times> jsval) list"

datatype js_error = TypeError | SyntaxError

text \<open>Sequencing of computations that may throw: the first exception wins.\<close>

definition then_do :: "'e + 'a \<Rightarrow> ('a \<Rightarrow> 'e + 'b) \<Rightarrow> 'e + 'b" where
  "then_do r f = (case r of Inl e \<Rightarrow> Inl e | Inr v \<Rightarrow> f v)"

text \<open>ToBoolean.\<close>

fun truthy :: "jsval \<Rightarrow> bool" where
  "truthy JUndefined = False"
| "truthy JNull = False"
| "truthy (JBool b) = b"
| "truthy (JNum n) = (n \<noteq> NaN \<and> n \<noteq> Fin 0)"
| "truthy (JStr s) = (s \<noteq> [])"
| "truthy (JArr xs) = True"
| "truthy (JObj kvs) = True"

text \<open>\<^verbatim>\<open>a || b\<close>\<close>

definition js_or :: "jsval \<Rightarrow> jsval \<Rightarrow> jsval" where
  "js_or a b = (if truthy a then a else b)"

text \<open>Own property of an object literal; a key that is not there reads as \<open>undefined\<close>.\<close>

definition obj_get :: "(jsstring \<times> jsval) list \<Rightarrow> jsstring \<Rightarrow> jsval" where
  "obj_get kvs k = (case map_of kvs k of None \<Rightarrow> JUndefined | Some v \<Rightarrow> v)"

text \<open>
  \<^verbatim>\<open>v.k\<close> for the property names the script reads (\<^verbatim>\<open>analises\<close>, \<^verbatim>\<open>metricas\<close>,
  \<^verbatim>\<open>nivel_risco\<close>, ...), none of which is a built-in property of strings, arrays,
  numbers or booleans: reading from \<open>undefined\<close> or \<open>null\<close> throws a TypeError, reading
  from any other non-object gives \<open>undefined\<close>.
\<close>

fun get_prop :: "jsval \<Rightarrow> jsstring \<Rightarrow> js_error + jsval" where
  "get_prop JUndefined k = Inl TypeError"
| "get_prop JNull k = Inl TypeError"
| "get_prop (JObj kvs) k = Inr (obj_get kvs k)"
| "get_prop v k = Inr JUndefined"

subsection \<open>Numbers and strings\<close>

text \<open>\<^verbatim>\<open>n >= k\<close> for a number \<open>n\<close> and an integer literal \<open>k\<close>.\<close>

fun num_ge :: "jsnum \<Rightarrow> int \<Rightarrow> bool" where
  "num_ge NaN k = False"
| "num_ge NegInf k = False"
| "num_ge (Fin n) k = (k \<le> n)"
| "num_ge PosInf k = True"

text \<open>The number of binary digits of a natural number.\<close>

fun bit_length :: "nat \<Rightarrow> nat" where
  "bit_length n = (if n = 0 then 0 else Suc (bit_length (n div 2)))"

declare bit_length.simps [simp del]

text \<open>
  The double nearest to an integer, ties to the even significand: integers up to \<open>2^53\<close>
  in magnitude are kept, larger ones are rounded to 53 significant bits, and what rounds
  to \<open>2^1024\<close> or more is an infinity.
\<close>

definition round_to_double :: "int \<Rightarrow> jsnum" where
  "round_to_double x =
     (let m = nat \<bar>x\<bar>;
          q = 2 ^ (bit_length m - 53);
          lo = m div q;
          r = m mod q;
          k = (if q < 2 * r \<or> (2 * r = q \<and> odd lo) then lo + 1 else lo) * q
      in if 2 ^ 1024 \<le> k then (if x < 0 then NegInf else PosInf)
         else Fin (if x < 0 then - int k else int k))"

text \<open>Addition of doubles: the exact sum of two integers, rounded.\<close>

fun num_add :: "jsnum \<Rightarrow> jsnum \<Rightarrow> jsnum" where
  "num_add (Fin a) (Fin b) = round_to_double (a + b)"
| "num_add NaN y = NaN"
| "num_add x NaN = NaN"
| "num_add PosInf NegInf = NaN"
| "num_add NegInf PosInf = NaN"
| "num_add PosInf y = PosInf"
| "num_add x PosInf = PosInf"
| "num_add NegInf y = NegInf"
| "num_add x NegInf = NegInf"

text \<open>Decimal digits, most significant first.\<close>

fun digits :: "nat \<Rightarrow> jsstring" where
  "digits n = (if n < 10 then [48 + of_nat n] else digits (n div 10) @ [48 + of_nat (n mod 10)])"

declare digits.simps [simp del]

text \<open>
  Number::toString of an integer above \<open>2^53\<close>: the shortest decimal significand \<open>s\<close> of
  \<open>k\<close> digits such that \<open>s * 10^(n - k)\<close> rounds to the number (the closest one when
  there are several), written in full up to \<open>n = 21\<close> and with an exponent beyond.
\<close>

definition digit_candidates :: "nat \<Rightarrow> nat \<Rightarrow> (nat \<times> nat) list" where
  "digit_candidates m k =
     filter (\<lambda>(n, s). 10 ^ (k - 1) \<le> s \<and> s < 10 ^ k
                        \<and> round_to_double (int (s * 10 ^ (n - k))) = Fin (int m))
       (concat (map (\<lambda>n. [(n, m div 10 ^ (n - k)), (n, m div 10 ^ (n - k) + 1)])
          [length (digits m), Suc (length (digits m))]))"

definition shortest_digits :: "nat \<Rightarrow> (nat \<times> nat \<times> nat) option" where
  "shortest_digits m =
     (case filter (\<lambda>k. digit_candidates m k \<noteq> []) [1..<18] of
        [] \<Rightarrow> None
      | k # ks \<Rightarrow>
          (let (n, s) = arg_min_list (\<lambda>(n, s). \<bar>int (s * 10 ^ (n - k)) - int m\<bar>)
                          (digit_candidates m k)
           in Some (k, n, s)))"

definition large_to_string :: "nat \<Rightarrow> jsstring" where
  "large_to_string m =
     (case shortest_digits m of
        None \<Rightarrow> digits m
      | Some (k, n, s) \<Rightarrow>
          if n \<le> 21 then digits s @ replicate (n - k) 0x30
          else if k = 1 then digits s @ [0x65, 0x2B] @ digits (n - 1)
          else hd (digits s) # 0x2E # tl (digits s) @ [0x65, 0x2B] @ digits (n - 1))"

text \<open>
  Number::toString: an integer of at most \<open>2^53\<close> in magnitude is written with all its
  digits, a larger one by its shortest significand.
\<close>

definition magnitude_to_string :: "nat \<Rightarrow> jsstring" where
  "magnitude_to_string m = (if m \<le> 2 ^ 53 then digits m else large_to_string m)"

fun num_to_string :: "jsnum \<Rightarrow> jsstring" where
  "num_to_string NaN = utf16 ''NaN''"
| "num_to_string PosInf = utf16 ''Infinity''"
| "num_to_string NegInf = utf16 ''-Infinity''"
| "num_to_string (Fin n) =
     (if n < 0 then utf16 ''-'' @ magnitude_to_string (nat (- n)) else magnitude_to_string (nat n))"

text \<open>\<^verbatim>\<open>Array.prototype.join(',')\<close> on strings.\<close>

fun join_comma :: "jsstring list \<Rightarrow> jsstring" where
  "join_comma [] = []"
| "join_comma [s] = s"
| "join_comma (s # t # ss) = s @ utf16 '','' @ join_comma (t # ss)"

text \<open>
  ToString on the values JSON can hold. An array joins its elements with commas
  (\<open>null\<close> and \<open>undefined\<close> elements as the empty string). A plain object is
  \<^verbatim>\<open>[object Object]\<close>, unless it has an own property \<^verbatim>\<open>toString\<close>: that property
  holds JSON data, which is not callable, the inherited \<^verbatim>\<open>valueOf\<close> returns the object
  itself, and the conversion throws a TypeError.
\<close>

fun to_string :: "jsval \<Rightarrow> js_error + jsstring"
  and to_string_items :: "jsval list \<Rightarrow> js_error + jsstring list"
where
  "to_string JUndefined = Inr (utf16 ''undefined'')"
| "to_string JNull = Inr (utf16 ''null'')"
| "to_string (JBool b) = Inr (if b then utf16 ''true'' else utf16 ''false'')"
| "to_string (JNum n) = Inr (num_to_string n)"
| "to_string (JStr s) = Inr s"
| "to_string (JArr xs) =
     (case to_string_items xs of Inl e \<Rightarrow> Inl e | Inr ss \<Rightarrow> Inr (join_comma ss))"
| "to_string (JObj kvs) =
     (if utf16 ''toString'' \<in> set (map fst kvs) then Inl TypeError
      else Inr (utf16 ''[object Object]''))"
| "to_string_items [] = Inr []"
| "to_string_items (x # xs) =
     (case (if x = JUndefined \<or> x = JNull then Inr [] else to_string x) of
        Inl e \<Rightarrow> Inl e
      | Inr s \<Rightarrow> (case to_string_items xs of Inl e \<Rightarrow> Inl e | Inr ss \<Rightarrow> Inr (s # ss)))"

text \<open>
  \<^verbatim>\<open>x == 'text'\<close> for a string literal that is not a numeric literal (its ToNumber
  is NaN): a string compares by content, an array or object by its ToPrimitive string
  (which may throw), and \<open>undefined\<close>, \<open>null\<close>, numbers and booleans are never equal to
  it.
\<close>

fun loose_eq_text :: "jsval \<Rightarrow> jsstring \<Rightarrow> js_error + bool" where
  "loose_eq_text (JStr t) s = Inr (t = s)"
| "loose_eq_text (JArr xs) s = then_do (to_string (JArr xs)) (\<lambda>t. Inr (t = s))"
| "loose_eq_text (JObj kvs) s = then_do (to_string (JObj kvs)) (\<lambda>t. Inr (t = s))"
| "loose_eq_text v s = Inr False"

text \<open>
  ToPrimitive (hint default): an array or object becomes its string, or throws as
  ToString does. ToNumber of a primitive that is not a string.
\<close>

fun to_primitive :: "jsval \<Rightarrow> js_error + jsval" where
  "to_primitive (JArr xs) = then_do (to_string (JArr xs)) (\<lambda>t. Inr (JStr t))"
| "to_primitive (JObj kvs) = then_do (to_string (JObj kvs)) (\<lambda>t. Inr (JStr t))"
| "to_primitive v = Inr v"

fun to_number :: "jsval \<Rightarrow> jsnum" where
  "to_number JNull = Fin 0"
| "to_number (JBool b) = Fin (if b then 1 else 0)"
| "to_number (JNum n) = n"
| "to_number v = NaN"

fun is_string :: "jsval \<Rightarrow> bool" where
  "is_string (JStr s) = True"
| "is_string v = False"

text \<open>
  \<^verbatim>\<open>a + b\<close>: both operands are made primitive, left first; then string concatenation
  as soon as one primitive is a string, numeric addition otherwise (\<open>to_number\<close> is then
  never applied to a string).
\<close>

definition js_add :: "jsval \<Rightarrow> jsval \<Rightarrow> js_error + jsval" where
  "js_add a b =
     then_do (to_primitive a) (\<lambda>pa.
     then_do (to_primitive b) (\<lambda>pb.
     if is_string pa \<or> is_string pb
     then then_do (to_string pa) (\<lambda>sa. then_do (to_string pb) (\<lambda>sb. Inr (JStr (sa @ sb))))
     else Inr (JNum (num_add (to_number pa) (to_number pb)))))"

text \<open>Decimal digits, and their value.\<close>

definition is_digit :: "16 word \<Rightarrow> bool" where
  "is_digit c = (0x30 \<le> c \<and> c \<le> 0x39)"

definition digits_value :: "jsstring \<Rightarrow> nat" where
  "digits_value s = foldl (\<lambda>a c. 10 * a + (unat c - 48)) 0 s"

text \<open>
  An array index as a property key: a canonical numeric string below \<open>2^32 - 1\<close>.
\<close>

definition is_array_index :: "jsstring \<Rightarrow> bool" where
  "is_array_index k =
     (k \<noteq> [] \<and> list_all is_digit k \<and> (k = [0x30] \<or> hd k \<noteq> 0x30)
      \<and> digits_value k < 2 ^ 32 - 1)"

text \<open>
  The order in which an object lists its own properties: array indices first, ascending,
  then the other keys as they stand.
\<close>

definition property_order :: "(jsstring \<times> jsval) list \<Rightarrow> (jsstring \<times> jsval) list" where
  "property_order kvs =
     sort_key (\<lambda>kv. digits_value (fst kv)) (filter (\<lambda>kv. is_array_index (fst kv)) kvs)
     @ filter (\<lambda>kv. \<not> is_array_index (fst kv)) kvs"

text \<open>The three level names the scoring code compares against.\<close>

definition Alto :: jsstring where "Alto = utf16 ''Alto''"
definition Medio :: jsstring where "Medio = utf16 ''M'' @ [0xE9] @ utf16 ''dio''"
definition Baixo :: jsstring where "Baixo = utf16 ''Baixo''"

section \<open>Scoring helpers\<close>

text \<open>
  \<^verbatim>\<open>getNumericScore(nivel)\<close>: a number is returned as it is; otherwise the
  \<^verbatim>\<open>switch\<close> compares with strict equality.
\<close>

fun getNumericScore :: "jsval \<Rightarrow> jsval" where
  "getNumericScore (JNum n) = JNum n"
| "getNumericScore v =
     (if v = JStr Alto then JNum (Fin 85)
      else if v = JStr Medio then JNum (Fin 65)
      else if v = JStr Baixo then JNum (Fin 40)
      else JNum (Fin 0))"

text \<open>
  \<^verbatim>\<open>getQualityClass(scoreOrLevel)\<close>; the constructors stand for the class names
  \<^verbatim>\<open>quality-excellent\<close>, \<^verbatim>\<open>quality-good\<close>, \<^verbatim>\<open>quality-average\<close>,
  \<^verbatim>\<open>quality-poor\<close> and \<^verbatim>\<open>quality-critical\<close>.
\<close>

datatype quality_class = Excellent | Good | Average | Poor | Critical

fun getQualityClass :: "jsval \<Rightarrow> quality_class" where
  "getQualityClass (JNum n) =
     (if num_ge n 80 then Excellent
      else if num_ge n 60 then Good
      else if num_ge n 40 then Average
      else if num_ge n 20 then Poor
      else Critical)"
| "getQualityClass v =
     (if v = JStr (utf16 ''A+'') then Excellent
      else if v = JStr (utf16 ''B'') then Good
      else if v = JStr (utf16 ''C'') then Poor
      else Average)"

section \<open>Metric cards\<close>

text \<open>\<^verbatim>\<open>analises.<category>.metricas || {}\<close>, as all three chart and card builders read it.\<close>

definition metricas_of :: "jsval \<Rightarrow> string \<Rightarrow> js_error + jsval" where
  "metricas_of analises category =
     then_do (get_prop analises (utf16 category)) (\<lambda>section.
     then_do (get_prop section (utf16 ''metricas'')) (\<lambda>m.
     Inr (js_or m (JObj []))))"

text \<open>
  What \<^verbatim>\<open>updateMetricCard\<close> leaves in one card when it completes: the score value,
  the quality class of the score element and the values of the two detail lines (issues
  and functions for security, structures and functions for performance, errors and
  violations for reliability, coverage and count for testing).
\<close>

record metric_card =
  score :: jsval
  css_class :: quality_class
  detail1 :: jsval
  detail2 :: jsval

record metric_cards =
  security :: metric_card
  performance :: metric_card
  reliability :: metric_card
  testing :: metric_card

text \<open>
  The text an assignment to \<^verbatim>\<open>textContent\<close> sets: \<open>null\<close> and \<open>undefined\<close> clear it,
  any other value goes through ToString.
\<close>

definition text_content :: "jsval \<Rightarrow> js_error + jsstring" where
  "text_content v = (if v = JUndefined \<or> v = JNull then Inr [] else to_string v)"

text \<open>
  \<^verbatim>\<open>updateMetricCard(type, data)\<close>, with the elements of the page in place: the score
  is written first, then the class of the value that is graded (the score, or the coverage
  on the testing card), then the two detail lines, whose template literals apply ToString
  to the values.
\<close>

definition updateMetricCard :: "jsval \<Rightarrow> jsval \<Rightarrow> jsval \<Rightarrow> jsval \<Rightarrow> js_error + metric_card" where
  "updateMetricCard sc graded d1 d2 =
     then_do (text_content sc) (\<lambda>shown.
     then_do (to_string d1) (\<lambda>line1.
     then_do (to_string d2) (\<lambda>line2.
     Inr \<lparr> score = sc, css_class = getQualityClass graded, detail1 = d1, detail2 = d2 \<rparr>)))"

text \<open>
  The score expression of the security card:
  \<^verbatim>\<open>nivel_risco == 'Alto' ? 'C' : nivel_risco == 'M\<close>\<^verbatim>\<open>edio' ? 'B' : 'A'\<close>
  (with the accented e), loose equality as written; the second comparison runs only
  when the first is false.
\<close>

definition security_score :: "jsval \<Rightarrow> js_error + jsval" where
  "security_score nivel_risco =
     then_do (loose_eq_text nivel_risco Alto) (\<lambda>alto.
     if alto then Inr (JStr (utf16 ''C''))
     else then_do (loose_eq_text nivel_risco Medio) (\<lambda>medio.
          Inr (if medio then JStr (utf16 ''B'') else JStr (utf16 ''A''))))"

text \<open>
  The four blocks of \<^verbatim>\<open>displayMetrics\<close>: the object literal is evaluated, then
  \<^verbatim>\<open>updateMetricCard\<close> is called with it.
\<close>

definition security_card :: "jsval \<Rightarrow> js_error + metric_card" where
  "security_card seguranca =
     then_do (get_prop seguranca (utf16 ''nivel_risco'')) (\<lambda>nivel_risco.
     then_do (security_score nivel_risco) (\<lambda>sc.
     then_do (get_prop seguranca (utf16 ''vulnerabilidades_encontradas'')) (\<lambda>vulns.
     then_do (get_prop seguranca (utf16 ''funcoes_sem_tratamento'')) (\<lambda>funcs.
     updateMetricCard sc sc (js_or vulns (JNum (Fin 0))) (js_or funcs (JNum (Fin 0)))))))"

definition performance_card :: "jsval \<Rightarrow> js_error + metric_card" where
  "performance_card desempenho =
     then_do (get_prop desempenho (utf16 ''score_performance'')) (\<lambda>sp.
     then_do (js_add sp (JStr (utf16 ''%''))) (\<lambda>sc.
     then_do (get_prop desempenho (utf16 ''estruturas_ineficientes'')) (\<lambda>structs.
     then_do (get_prop desempenho (utf16 ''funcoes_longas'')) (\<lambda>funcs.
     updateMetricCard sc sc (js_or structs (JNum (Fin 0))) (js_or funcs (JNum (Fin 0)))))))"

definition reliability_card :: "jsval \<Rightarrow> js_error + metric_card" where
  "reliability_card confiabilidade =
     then_do (get_prop confiabilidade (utf16 ''nivel_confiabilidade'')) (\<lambda>nivel.
     then_do (get_prop confiabilidade (utf16 ''problemas_tratamento_erros'')) (\<lambda>errs.
     then_do (get_prop confiabilidade (utf16 ''violacoes_padroes'')) (\<lambda>viols.
     updateMetricCard nivel nivel (js_or errs (JNum (Fin 0))) (js_or viols (JNum (Fin 0))))))"

definition testing_card :: "jsval \<Rightarrow> js_error + metric_card" where
  "testing_card testes =
     then_do (get_prop testes (utf16 ''cobertura_estimada'')) (\<lambda>cobertura.
     let coveragePercent = js_or cobertura (JNum (Fin 0)) in
     then_do (js_add coveragePercent (JStr (utf16 ''%''))) (\<lambda>sc.
     then_do (get_prop testes (utf16 ''quantidade_testes'')) (\<lambda>quantidade.
     updateMetricCard sc coveragePercent coveragePercent (js_or quantidade (JNum (Fin 0))))))"

text \<open>
  \<^verbatim>\<open>displayMetrics(results)\<close>: the four cards are filled in order, and the first
  TypeError ends the function.
\<close>

definition displayMetrics :: "jsval \<Rightarrow> js_error + metric_cards" where
  "displayMetrics results =
     then_do (get_prop results (utf16 ''analises'')) (\<lambda>a.
     let analises = js_or a (JObj []) in
     then_do (metricas_of analises ''seguranca'') (\<lambda>seguranca.
     then_do (security_card seguranca) (\<lambda>sec.
     then_do (metricas_of analises ''desempenho'') (\<lambda>desempenho.
     then_do (performance_card desempenho) (\<lambda>perf.
     then_do (metricas_of analises ''confiabilidade'') (\<lambda>confiabilidade.
     then_do (reliability_card confiabilidade) (\<lambda>rel.
     then_do (metricas_of analises ''testes'') (\<lambda>testes.
     then_do (testing_card testes) (\<lambda>tst.
     Inr \<lparr> security = sec, performance = perf, reliability = rel, testing = tst \<rparr>)))))))))"

section \<open>Chart datasets\<close>

text \<open>
  The four metric bundles, read in the order seguranca, desempenho, confiabilidade,
  testes by both chart builders before any dataset is formed.
\<close>

definition chart_bundles :: "jsval \<Rightarrow> js_error + (jsval \<times> jsval \<times> jsval \<times> jsval)" where
  "chart_bundles results =
     then_do (get_prop results (utf16 ''analises'')) (\<lambda>a.
     let analises = js_or a (JObj []) in
     then_do (metricas_of analises ''seguranca'') (\<lambda>seguranca.
     then_do (metricas_of analises ''desempenho'') (\<lambda>desempenho.
     then_do (metricas_of analises ''confiabilidade'') (\<lambda>confiabilidade.
     then_do (metricas_of analises ''testes'') (\<lambda>testes.
     Inr (seguranca, desempenho, confiabilidade, testes))))))"

text \<open>\<^verbatim>\<open>(bundle.k1 || 0) + (bundle.k2 || 0)\<close>\<close>

definition problem_sum :: "jsval \<Rightarrow> string \<Rightarrow> string \<Rightarrow> js_error + jsval" where
  "problem_sum bundle k1 k2 =
     then_do (get_prop bundle (utf16 k1)) (\<lambda>x.
     then_do (get_prop bundle (utf16 k2)) (\<lambda>y.
     js_add (js_or x (JNum (Fin 0))) (js_or y (JNum (Fin 0)))))"

text \<open>\<^verbatim>\<open>displayProblemsChart(results)\<close>: the \<^verbatim>\<open>data\<close> array of the doughnut dataset.\<close>

definition displayProblemsChart :: "jsval \<Rightarrow> js_error + jsval list" where
  "displayProblemsChart results =
     then_do (chart_bundles results) (\<lambda>(seguranca, desempenho, confiabilidade, testes).
     then_do (problem_sum seguranca ''vulnerabilidades_encontradas'' ''funcoes_sem_tratamento'') (\<lambda>c1.
     then_do (problem_sum desempenho ''estruturas_ineficientes'' ''funcoes_longas'') (\<lambda>c2.
     then_do (problem_sum confiabilidade ''problemas_tratamento_erros'' ''violacoes_padroes'') (\<lambda>c3.
     then_do (get_prop testes (utf16 ''funcionalidades_sem_teste'')) (\<lambda>u.
     Inr [c1, c2, c3, js_or u (JNum (Fin 0))])))))"

text \<open>\<^verbatim>\<open>displayQualityChart(results)\<close>: the \<^verbatim>\<open>data\<close> array of the radar dataset.\<close>

definition displayQualityChart :: "jsval \<Rightarrow> js_error + jsval list" where
  "displayQualityChart results =
     then_do (chart_bundles results) (\<lambda>(seguranca, desempenho, confiabilidade, testes).
     then_do (get_prop seguranca (utf16 ''nivel_risco'')) (\<lambda>nivel_risco.
     then_do (get_prop desempenho (utf16 ''score_performance'')) (\<lambda>score_performance.
     then_do (get_prop confiabilidade (utf16 ''nivel_confiabilidade'')) (\<lambda>nivel_confiabilidade.
     then_do (get_prop testes (utf16 ''cobertura_estimada'')) (\<lambda>cobertura.
     Inr [getNumericScore nivel_risco,
          getNumericScore score_performance,
          getNumericScore nivel_confiabilidade,
          js_or cobertura (JNum (Fin 0))])))))"

section \<open>Recommendations\<close>

text \<open>
  The code units \<^verbatim>\<open>String.prototype.trim\<close> strips: ECMAScript WhiteSpace and
  LineTerminator.
\<close>

definition is_space :: "16 word \<Rightarrow> bool" where
  "is_space c = (c \<in> set [0x09, 0x0A, 0x0B, 0x0C, 0x0D, 0x20, 0xA0, 0x1680,
       0x2000, 0x2001, 0x2002, 0x2003, 0x2004, 0x2005, 0x2006, 0x2007, 0x2008, 0x2009, 0x200A,
       0x2028, 0x2029, 0x202F, 0x205F, 0x3000, 0xFEFF])"

definition trim :: "jsstring \<Rightarrow> jsstring" where
  "trim s = rev (dropWhile is_space (rev (dropWhile is_space s)))"

text \<open>\<^verbatim>\<open>s.split(/[,\n]/)\<close>: cut at every comma and line feed; the empty string gives one empty part.\<close>

fun split_list :: "jsstring \<Rightarrow> jsstring list" where
  "split_list [] = [[]]"
| "split_list (c # cs) =
     (if c = 0x2C \<or> c = 0x0A then [] # split_list cs
      else (case split_list cs of [] \<Rightarrow> [[c]] | w # ws \<Rightarrow> (c # w) # ws))"

text \<open>
  The body of the \<^verbatim>\<open>forEach\<close> in \<^verbatim>\<open>displayRecommendations\<close>, from the value of
  \<^verbatim>\<open>recomendacoes\<close> on: \<^verbatim>\<open>|| []\<close>, then a string is split and its blank parts are
  filtered out, an array is kept as it is, and anything else becomes \<^verbatim>\<open>[]\<close>.
\<close>

definition recommendations_array :: "jsval \<Rightarrow> jsval list" where
  "recommendations_array v =
     (case js_or v (JArr []) of
        JStr s \<Rightarrow> map JStr (filter (\<lambda>r. truthy (JStr (trim r))) (split_list s))
      | JArr xs \<Rightarrow> xs
      | _ \<Rightarrow> [])"

text \<open>\<^verbatim>\<open>rec.trim()\<close>: only a string has the method.\<close>

fun trim_item :: "jsval \<Rightarrow> js_error + jsstring" where
  "trim_item (JStr s) = Inr (trim s)"
| "trim_item v = Inl TypeError"

fun map_throw :: "('a \<Rightarrow> 'e + 'b) \<Rightarrow> 'a list \<Rightarrow> 'e + 'b list" where
  "map_throw f [] = Inr []"
| "map_throw f (x # xs) = then_do (f x) (\<lambda>y. then_do (map_throw f xs) (\<lambda>ys. Inr (y # ys)))"

text \<open>The list items rendered for one category, in order.\<close>

definition recommendation_items :: "jsval \<Rightarrow> js_error + jsstring list" where
  "recommendation_items v = map_throw trim_item (recommendations_array v)"

text \<open>
  \<^verbatim>\<open>analises[category]?.dados_completos.recomendacoes\<close>: the optional chain ends the
  whole expression with \<open>undefined\<close> when the category is nullish, and only then.
\<close>

definition recomendacoes_of :: "jsval \<Rightarrow> string \<Rightarrow> js_error + jsval" where
  "recomendacoes_of analises category =
     then_do (get_prop analises (utf16 category)) (\<lambda>section.
     if section = JUndefined \<or> section = JNull then Inr JUndefined
     else then_do (get_prop section (utf16 ''dados_completos'')) (\<lambda>dados.
          get_prop dados (utf16 ''recomendacoes'')))"

definition categories :: "string list" where
  "categories = [''seguranca'', ''desempenho'', ''confiabilidade'', ''testes'']"

text \<open>One card per category that has at least one item; no card means the "no recommendation" notice.\<close>

fun recommendation_cards :: "jsval \<Rightarrow> string list \<Rightarrow> js_error + (string \<times> jsstring list) list" where
  "recommendation_cards analises [] = Inr []"
| "recommendation_cards analises (category # rest) =
     then_do (recomendacoes_of analises category) (\<lambda>v.
     then_do (recommendation_items v) (\<lambda>items.
     then_do (recommendation_cards analises rest) (\<lambda>cards.
     Inr (if items = [] then cards else (category, items) # cards))))"

definition displayRecommendations :: "jsval \<Rightarrow> js_error + (string \<times> jsstring list) list" where
  "displayRecommendations results =
     then_do (get_prop results (utf16 ''analises'')) (\<lambda>analises.
     recommendation_cards analises categories)"

section \<open>Technical details and page header\<close>

text \<open>
  \<^verbatim>\<open>Object.keys(x)\<close> with the values behind the keys: a TypeError on \<open>undefined\<close> and
  \<open>null\<close>, the properties of an object in their listing order, the index keys of a
  string or array, nothing for a number or boolean.
\<close>

fun own_entries :: "jsval \<Rightarrow> js_error + (jsstring \<times> jsval) list" where
  "own_entries JUndefined = Inl TypeError"
| "own_entries JNull = Inl TypeError"
| "own_entries (JObj kvs) = Inr (property_order kvs)"
| "own_entries (JStr s) = Inr (zip (map digits [0..<length s]) (map (\<lambda>c. JStr [c]) s))"
| "own_entries (JArr xs) = Inr (zip (map digits [0..<length xs]) xs)"
| "own_entries v = Inr []"

text \<open>
  \<^verbatim>\<open>formatDetailValue(value)\<close>, as far as it can throw: a number is formatted by the
  locale, an array is joined (ToString on its elements), anything else goes through
  \<^verbatim>\<open>String\<close>. The text itself is not modelled; the value stands for it.
\<close>

fun formatDetailValue :: "jsval \<Rightarrow> js_error + jsval" where
  "formatDetailValue (JNum n) = Inr (JNum n)"
| "formatDetailValue (JArr xs) = then_do (to_string_items xs) (\<lambda>parts. Inr (JArr xs))"
| "formatDetailValue v = then_do (to_string v) (\<lambda>text. Inr v)"

text \<open>
  \<^verbatim>\<open>createDetailsHTML(analises.<category>.metricas, ...)\<close>: the entries shown, every
  key but \<^verbatim>\<open>recomendacoes\<close>, each with its value formatted
  (\<^verbatim>\<open>formatDetailKey\<close> works on the key, a string, and cannot throw).
\<close>

definition createDetailsHTML :: "jsval \<Rightarrow> js_error + (jsstring \<times> jsval) list" where
  "createDetailsHTML analysisData =
     then_do (own_entries analysisData) (\<lambda>entries.
     map_throw (\<lambda>(k, v). then_do (formatDetailValue v) (\<lambda>shown. Inr (k, shown)))
       (filter (\<lambda>(k, v). k \<noteq> utf16 ''recomendacoes'') entries))"

definition category_details :: "jsval \<Rightarrow> string \<Rightarrow> js_error + (jsstring \<times> jsval) list" where
  "category_details analises category =
     then_do (get_prop analises (utf16 category)) (\<lambda>section.
     then_do (get_prop section (utf16 ''metricas'')) (\<lambda>m.
     createDetailsHTML m))"

definition displayTechnicalDetails :: "jsval \<Rightarrow> js_error + (jsstring \<times> jsval) list list" where
  "displayTechnicalDetails results =
     then_do (get_prop results (utf16 ''analises'')) (\<lambda>analises.
     map_throw (category_details analises) categories)"

text \<open>
  \<^verbatim>\<open>displayRepoInfo(results)\<close>, as far as it can throw:
  \<^verbatim>\<open>results.repositorio_url.match(...)\<close> throws unless the URL is a string,
  \<^verbatim>\<open>new Date(results.timestamp)\<close> makes its argument primitive, and the template
  literal applies ToString to the model name (\<^verbatim>\<open>results.modelo_usado || 'N/A'\<close>, or
  the display name of a known model), to \<^verbatim>\<open>results.tempo_execucao\<close> and to
  \<^verbatim>\<open>results.status\<close>. The header text itself (a locale date among other things) is not
  modelled.
\<close>

definition displayRepoInfo :: "jsval \<Rightarrow> js_error + unit" where
  "displayRepoInfo results =
     then_do (get_prop results (utf16 ''repositorio_url'')) (\<lambda>url.
     if \<not> is_string url then Inl TypeError
     else then_do (get_prop results (utf16 ''timestamp'')) (\<lambda>timestamp.
          then_do (to_primitive timestamp) (\<lambda>time.
          then_do (get_prop results (utf16 ''modelo_usado'')) (\<lambda>modelo.
          then_do (to_string (js_or modelo (JStr (utf16 ''N/A'')))) (\<lambda>modelDisplay.
          then_do (get_prop results (utf16 ''tempo_execucao'')) (\<lambda>tempo.
          then_do (to_string tempo) (\<lambda>tempoText.
          then_do (get_prop results (utf16 ''status'')) (\<lambda>status.
          then_do (to_string status) (\<lambda>statusText. Inr ())))))))))"

section \<open>The whole report\<close>

record report_view =
  cards :: metric_cards
  problems :: "jsval list"
  radar :: "jsval list"
  recommendations :: "(string \<times> jsstring list) list"
  details :: "(jsstring \<times> jsval) list list"

text \<open>\<^verbatim>\<open>displayResults(results)\<close>, in the order of the calls.\<close>

definition displayResults :: "jsval \<Rightarrow> js_error + report_view" where
  "displayResults results =
     then_do (displayRepoInfo results) (\<lambda>u.
     then_do (displayMetrics results) (\<lambda>m.
     then_do (displayProblemsChart results) (\<lambda>p.
     then_do (displayQualityChart results) (\<lambda>q.
     then_do (displayRecommendations results) (\<lambda>r.
     then_do (displayTechnicalDetails results) (\<lambda>d.
     Inr \<lparr> cards = m, problems = p, radar = q, recommendations = r, details = d \<rparr>))))))"

section \<open>The JSON codec of the platform\<close>

subsection \<open>JSON.stringify(value, null, 2)\<close>

definition hex_digit :: "nat \<Rightarrow> 16 word" where
  "hex_digit k = (if k < 10 then 0x30 + of_nat k else 0x57 + of_nat k)"

text \<open>\<^verbatim>\<open>\uXXXX\<close> with four lowercase hexadecimal digits.\<close>

definition unicode_escape :: "16 word \<Rightarrow> jsstring" where
  "unicode_escape c =
     [0x5C, 0x75, hex_digit (unat c div 4096), hex_digit (unat c div 256 mod 16),
      hex_digit (unat c div 16 mod 16), hex_digit (unat c mod 16)]"

definition is_high_surrogate :: "16 word \<Rightarrow> bool" where
  "is_high_surrogate c = (0xD800 \<le> c \<and> c \<le> 0xDBFF)"

definition is_low_surrogate :: "16 word \<Rightarrow> bool" where
  "is_low_surrogate c = (0xDC00 \<le> c \<and> c \<le> 0xDFFF)"

text \<open>One code unit that is not a surrogate, as QuoteJSONString writes it.\<close>

definition quote_unit :: "16 word \<Rightarrow> jsstring" where
  "quote_unit c =
     (if c = 0x08 then [0x5C, 0x62]
      else if c = 0x09 then [0x5C, 0x74]
      else if c = 0x0A then [0x5C, 0x6E]
      else if c = 0x0C then [0x5C, 0x66]
      else if c = 0x0D then [0x5C, 0x72]
      else if c = 0x22 then [0x5C, 0x22]
      else if c = 0x5C then [0x5C, 0x5C]
      else if c < 0x20 then unicode_escape c
      else [c])"

text \<open>
  The body of a quoted string: a surrogate pair is written as it is, a lone surrogate as
  an escape.
\<close>

fun quote_units :: "jsstring \<Rightarrow> jsstring" where
  "quote_units [] = []"
| "quote_units [c] =
     (if is_high_surrogate c \<or> is_low_surrogate c then unicode_escape c else quote_unit c)"
| "quote_units (c # d # cs) =
     (if is_high_surrogate c \<and> is_low_surrogate d then c # d # quote_units cs
      else if is_high_surrogate c \<or> is_low_surrogate c then unicode_escape c @ quote_units (d # cs)
      else quote_unit c @ quote_units (d # cs))"

definition quote :: "jsstring \<Rightarrow> jsstring" where
  "quote s = 0x22 # quote_units s @ [0x22]"

text \<open>A line feed and the indentation of depth \<open>d\<close>, two spaces a level.\<close>

definition nl :: "nat \<Rightarrow> jsstring" where
  "nl d = 0x0A # replicate (2 * d) 0x20"

text \<open>
  SerializeJSONProperty at depth \<open>d\<close>. A number that is not finite is written
  \<^verbatim>\<open>null\<close>; so is \<open>undefined\<close> as an array element, while an object member whose value
  is \<open>undefined\<close> is left out.
\<close>

fun ser :: "nat \<Rightarrow> jsval \<Rightarrow> jsstring"
  and ser_items :: "nat \<Rightarrow> jsval list \<Rightarrow> jsstring"
  and ser_members :: "nat \<Rightarrow> (jsstring \<times> jsval) list \<Rightarrow> jsstring"
where
  "ser d JUndefined = utf16 ''null''"
| "ser d JNull = utf16 ''null''"
| "ser d (JBool b) = (if b then utf16 ''true'' else utf16 ''false'')"
| "ser d (JNum n) = (case n of Fin i \<Rightarrow> num_to_string (Fin i) | _ \<Rightarrow> utf16 ''null'')"
| "ser d (JStr s) = quote s"
| "ser d (JArr xs) =
     (if xs = [] then utf16 ''[]''
      else 0x5B # nl (Suc d) @ ser_items (Suc d) xs @ nl d @ [0x5D])"
| "ser d (JObj kvs) =
     (let body = ser_members (Suc d) kvs
      in if body = [] then utf16 ''{}''
         else 0x7B # nl (Suc d) @ body @ nl d @ [0x7D])"
| "ser_items d [] = []"
| "ser_items d (x # xs) =
     ser d x @ (if xs = [] then [] else 0x2C # nl d @ ser_items d xs)"
| "ser_members d [] = []"
| "ser_members d ((k, v) # kvs) =
     (let rest = ser_members d kvs
      in if v = JUndefined then rest
         else quote k @ [0x3A, 0x20] @ ser d v @ (if rest = [] then [] else 0x2C # nl d @ rest))"

definition JSON_stringify :: "jsval \<Rightarrow> jsstring" where
  "JSON_stringify v = ser 0 v"

subsection \<open>JSON.parse(text)\<close>

text \<open>
  The outcome of a parsing step: \<open>Bad\<close> is a SyntaxError, \<open>Got v rest\<close> a value and the
  text after it. \<open>Beyond\<close> marks a text this model does not follow: a number literal that
  a double holds only after rounding, or a parse that ran out of fuel.
\<close>

datatype 'a parsed = Bad | Beyond | Got 'a jsstring

definition is_json_ws :: "16 word \<Rightarrow> bool" where
  "is_json_ws c = (c = 0x20 \<or> c = 0x09 \<or> c = 0x0A \<or> c = 0x0D)"

definition skip_ws :: "jsstring \<Rightarrow> jsstring" where
  "skip_ws s = dropWhile is_json_ws s"

definition hex_value :: "16 word \<Rightarrow> nat option" where
  "hex_value c =
     (if is_digit c then Some (unat c - 48)
      else if 0x61 \<le> c \<and> c \<le> 0x66 then Some (unat c - 87)
      else if 0x41 \<le> c \<and> c \<le> 0x46 then Some (unat c - 55)
      else None)"

text \<open>The code unit of exactly four hexadecimal digits.\<close>

fun hex4 :: "jsstring \<Rightarrow> 16 word option" where
  "hex4 [a, b, c, d] =
     (case (hex_value a, hex_value b, hex_value c, hex_value d) of
        (Some x, Some y, Some z, Some w) \<Rightarrow> Some (of_nat (((x * 16 + y) * 16 + z) * 16 + w))
      | _ \<Rightarrow> None)"
| "hex4 s = None"

definition simple_escape :: "16 word \<Rightarrow> 16 word option" where
  "simple_escape e =
     (if e = 0x22 then Some 0x22
      else if e = 0x5C then Some 0x5C
      else if e = 0x2F then Some 0x2F
      else if e = 0x62 then Some 0x08
      else if e = 0x66 then Some 0x0C
      else if e = 0x6E then Some 0x0A
      else if e = 0x72 then Some 0x0D
      else if e = 0x74 then Some 0x09
      else None)"

definition and_then :: "16 word \<Rightarrow> (jsstring \<times> jsstring) option \<Rightarrow> (jsstring \<times> jsstring) option" where
  "and_then u r = (case r of None \<Rightarrow> None | Some (s, t) \<Rightarrow> Some (u # s, t))"

text \<open>
  The text after an opening quote: the content up to the closing quote, and the text
  after that quote. A raw control character, a bad escape or a missing quote is an error.
\<close>

fun string_body :: "jsstring \<Rightarrow> (jsstring \<times> jsstring) option" where
  "string_body [] = None"
| "string_body (c # cs) =
     (if c = 0x22 then Some ([], cs)
      else if c = 0x5C then
        (case cs of
           [] \<Rightarrow> None
         | e # r \<Rightarrow>
             if e = 0x75
             then (case hex4 (take 4 r) of
                     None \<Rightarrow> None
                   | Some u \<Rightarrow> and_then u (string_body (drop 4 r)))
             else (case simple_escape e of
                     None \<Rightarrow> None
                   | Some u \<Rightarrow> and_then u (string_body r)))
      else if c < 0x20 then None
      else and_then c (string_body cs))"

text \<open>The fraction of a number literal: its digits and the text after them.\<close>

definition number_frac :: "jsstring \<Rightarrow> (jsstring \<times> jsstring) option" where
  "number_frac s =
     (case s of
        [] \<Rightarrow> Some ([], s)
      | c # t \<Rightarrow>
          if c = 0x2E
          then (if takeWhile is_digit t = [] then None
                else Some (takeWhile is_digit t, dropWhile is_digit t))
          else Some ([], s))"

text \<open>The exponent of a number literal (0 when there is none) and the text after it.\<close>

definition number_exp :: "jsstring \<Rightarrow> (int \<times> jsstring) option" where
  "number_exp s =
     (case s of
        [] \<Rightarrow> Some (0, s)
      | c # t \<Rightarrow>
          if c = 0x65 \<or> c = 0x45
          then (let neg = (t \<noteq> [] \<and> hd t = 0x2D);
                    u = (if t \<noteq> [] \<and> (hd t = 0x2D \<or> hd t = 0x2B) then tl t else t)
                in if takeWhile is_digit u = [] then None
                   else Some ((if neg then - int (digits_value (takeWhile is_digit u))
                               else int (digits_value (takeWhile is_digit u))),
                              dropWhile is_digit u))
          else Some (0, s))"

text \<open>
  The double of the literal \<open>\<plusminus> m * 10^e\<close>, where the model has it: an infinity from
  \<open>2^1024 - 2^970\<close> on (where rounding to nearest overflows), an integer of at most
  \<open>2^53\<close> in magnitude exactly, and nothing for a value that has to be rounded.
\<close>

definition number_of :: "bool \<Rightarrow> nat \<Rightarrow> int \<Rightarrow> jsnum option" where
  "number_of neg m e =
     (let overflow = (if 0 \<le> e then 2 ^ 1024 - 2 ^ 970 \<le> m * 10 ^ nat e
                      else (2 ^ 1024 - 2 ^ 970) * 10 ^ nat (- e) \<le> m);
          whole = (0 \<le> e \<or> 10 ^ nat (- e) dvd m);
          n = (if 0 \<le> e then m * 10 ^ nat e else m div 10 ^ nat (- e))
      in if overflow then Some (if neg then NegInf else PosInf)
         else if whole \<and> n \<le> 2 ^ 53 then Some (Fin (if neg then - int n else int n))
         else None)"

definition parse_number :: "jsstring \<Rightarrow> jsval parsed" where
  "parse_number s =
     (let neg = (s \<noteq> [] \<and> hd s = 0x2D);
          s1 = (if neg then tl s else s);
          ip = takeWhile is_digit s1
      in if ip = [] \<or> (1 < length ip \<and> hd ip = 0x30) then Bad
         else (case number_frac (dropWhile is_digit s1) of
                 None \<Rightarrow> Bad
               | Some (fp, s2) \<Rightarrow>
                   (case number_exp s2 of
                      None \<Rightarrow> Bad
                    | Some (e, s3) \<Rightarrow>
                        (case number_of neg (digits_value (ip @ fp)) (e - int (length fp)) of
                           None \<Rightarrow> Beyond
                         | Some n \<Rightarrow> Got (JNum n) s3))))"

definition literal :: "string \<Rightarrow> jsval \<Rightarrow> jsstring \<Rightarrow> jsval parsed" where
  "literal name v s =
     (if take (length name) s = utf16 name then Got v (drop (length name) s) else Bad)"

subsection \<open>Property order of an object\<close>

fun insert_index :: "jsstring \<Rightarrow> jsval \<Rightarrow> (jsstring \<times> jsval) list \<Rightarrow> (jsstring \<times> jsval) list" where
  "insert_index k v [] = [(k, v)]"
| "insert_index k v ((k', v') # rest) =
     (if is_array_index k' \<and> digits_value k' < digits_value k
      then (k', v') # insert_index k v rest
      else (k, v) # (k', v') # rest)"

text \<open>
  Defining a property: an existing key keeps its place and takes the new value, a new
  array index goes among the indices in ascending order, any other new key goes last.
\<close>

definition obj_put :: "(jsstring \<times> jsval) list \<Rightarrow> jsstring \<times> jsval \<Rightarrow> (jsstring \<times> jsval) list" where
  "obj_put kvs kv =
     (if fst kv \<in> set (map fst kvs)
      then map (\<lambda>(k', v'). if k' = fst kv then kv else (k', v')) kvs
      else if is_array_index (fst kv) then insert_index (fst kv) (snd kv) kvs
      else kvs @ [kv])"

subsection \<open>Values\<close>

fun parse_value :: "nat \<Rightarrow> jsstring \<Rightarrow> jsval parsed"
  and parse_items :: "nat \<Rightarrow> jsstring \<Rightarrow> jsval list parsed"
  and parse_members :: "nat \<Rightarrow> jsstring \<Rightarrow> (jsstring \<times> jsval) list parsed"
where
  "parse_value 0 s = Beyond"
| "parse_value (Suc n) s =
     (case s of
        [] \<Rightarrow> Bad
      | c # cs \<Rightarrow>
          if c = 0x7B then
            (case skip_ws cs of
               [] \<Rightarrow> Bad
             | d # ds \<Rightarrow>
                 if d = 0x7D then Got (JObj []) ds
                 else (case parse_members n (d # ds) of
                         Bad \<Rightarrow> Bad
                       | Beyond \<Rightarrow> Beyond
                       | Got kvs r \<Rightarrow> Got (JObj (foldl obj_put [] kvs)) r))
          else if c = 0x5B then
            (case skip_ws cs of
               [] \<Rightarrow> Bad
             | d # ds \<Rightarrow>
                 if d = 0x5D then Got (JArr []) ds
                 else (case parse_items n (d # ds) of
                         Bad \<Rightarrow> Bad
                       | Beyond \<Rightarrow> Beyond
                       | Got vs r \<Rightarrow> Got (JArr vs) r))
          else if c = 0x22 then
            (case string_body cs of None \<Rightarrow> Bad | Some (str, r) \<Rightarrow> Got (JStr str) r)
          else if c = 0x74 then literal ''true'' (JBool True) s
          else if c = 0x66 then literal ''false'' (JBool False) s
          else if c = 0x6E then literal ''null'' JNull s
          else if c = 0x2D \<or> is_digit c then parse_number s
          else Bad)"
| "parse_items 0 s = Beyond"
| "parse_items (Suc n) s =
     (case parse_value n s of
        Bad \<Rightarrow> Bad
      | Beyond \<Rightarrow> Beyond
      | Got v r \<Rightarrow>
          (case skip_ws r of
             [] \<Rightarrow> Bad
           | c # cs \<Rightarrow>
               if c = 0x2C then
                 (case parse_items n (skip_ws cs) of
                    Bad \<Rightarrow> Bad
                  | Beyond \<Rightarrow> Beyond
                  | Got vs t \<Rightarrow> Got (v # vs) t)
               else if c = 0x5D then Got [v] cs
               else Bad))"
| "parse_members 0 s = Beyond"
| "parse_members (Suc n) s =
     (case s of
        [] \<Rightarrow> Bad
      | c # cs \<Rightarrow>
          if c \<noteq> 0x22 then Bad
          else (case string_body cs of
                  None \<Rightarrow> Bad
                | Some (k, r) \<Rightarrow>
                    (case skip_ws r of
                       [] \<Rightarrow> Bad
                     | d # ds \<Rightarrow>
                         if d \<noteq> 0x3A then Bad
                         else (case parse_value n (skip_ws ds) of
                                 Bad \<Rightarrow> Bad
                               | Beyond \<Rightarrow> Beyond
                               | Got v t \<Rightarrow>
                                   (case skip_ws t of
                                      [] \<Rightarrow> Bad
                                    | e # es \<Rightarrow>
                                        if e = 0x2C then
                                          (case parse_members n (skip_ws es) of
                                             Bad \<Rightarrow> Bad
                                           | Beyond \<Rightarrow> Beyond
                                           | Got kvs u \<Rightarrow> Got ((k, v) # kvs) u)
                                        else if e = 0x7D then Got [(k, v)] es
                                        else Bad)))))"

text \<open>
  \<^verbatim>\<open>JSON.parse(text)\<close>: \<open>Some\<close> of the value or of the SyntaxError, and \<open>None\<close> on a
  text the model does not follow. The fuel is twice the length of the text and more: a nested
  call costs at most two units and comes after at least one consumed character.
\<close>

definition JSON_parse :: "jsstring \<Rightarrow> (js_error + jsval) option" where
  "JSON_parse s =
     (case parse_value (2 * length s + 2) (skip_ws s) of
        Bad \<Rightarrow> Some (Inl SyntaxError)
      | Beyond \<Rightarrow> None
      | Got v r \<Rightarrow> if skip_ws r = [] then Some (Inr v) else Some (Inl SyntaxError))"


subsection \<open>The values the codec reproduces\<close>

text \<open>
  Property keys in the order JavaScript keeps them: array indices first, ascending, then
  the other keys (in any order, it is their creation order).
\<close>

fun ordered_keys :: "jsstring list \<Rightarrow> bool" where
  "ordered_keys [] = True"
| "ordered_keys [k] = True"
| "ordered_keys (k # k' # ks) =
     ((is_array_index k' \<longrightarrow> is_array_index k \<and> digits_value k < digits_value k')
      \<and> ordered_keys (k' # ks))"

definition js_ordered :: "(jsstring \<times> jsval) list \<Rightarrow> bool" where
  "js_ordered kvs = (distinct (map fst kvs) \<and> ordered_keys (map fst kvs))"

text \<open>
  A value as \<^verbatim>\<open>JSON.parse\<close> returns it, with finite numbers only: no \<open>undefined\<close>,
  every number an integer of at most \<open>2^53\<close> in magnitude, every object with distinct
  keys in JavaScript's order.
\<close>

fun json_value :: "jsval \<Rightarrow> bool"
  and json_items :: "jsval list \<Rightarrow> bool"
  and json_members :: "(jsstring \<times> jsval) list \<Rightarrow> bool"
where
  "json_value JUndefined = False"
| "json_value JNull = True"
| "json_value (JBool b) = True"
| "json_value (JNum n) = (case n of Fin i \<Rightarrow> \<bar>i\<bar> \<le> 2 ^ 53 | _ \<Rightarrow> False)"
| "json_value (JStr s) = True"
| "json_value (JArr xs) = json_items xs"
| "json_value (JObj kvs) = (js_ordered kvs \<and> json_members kvs)"
| "json_items [] = True"
| "json_items (x # xs) = (json_value x \<and> json_items xs)"
| "json_members [] = True"
| "json_members ((k, v) # kvs) = (json_value v \<and> json_members kvs)"

text \<open>A text that does not go on with the digits, fraction or exponent of a number.\<close>

definition delimited :: "jsstring \<Rightarrow> bool" where
  "delimited r = (r = [] \<or> hd r = 0x2C \<or> hd r = 0x0A)"

text \<open>A code unit that can begin a value: not white space, not a closing bracket.\<close>

definition value_start :: "16 word \<Rightarrow> bool" where
  "value_start c = (\<not> is_json_ws c \<and> c \<noteq> 0x5D \<and> c \<noteq> 0x7D)"

section \<open>Importing and exporting a file\<close>

datatype alert = SelectJsonFile | NotAnAnalysis | ProcessingError | NothingToDownload

text \<open>
  The page after a display: a complete report, or \<open>Garbled\<close> when \<^verbatim>\<open>displayResults\<close>
  threw midway and left a mix of old and new widgets (not tracked further).
\<close>

datatype screen = NoReport | Report report_view | Garbled

record app_state =
  currentResults :: jsval
  screen :: screen
  alerts :: "alert list"

record import_file =
  file_type :: jsstring
  file_name :: jsstring
  file_text :: jsstring

text \<open>\<^verbatim>\<open>s.includes(t)\<close> and \<^verbatim>\<open>s.endsWith(t)\<close>\<close>

fun str_includes :: "jsstring \<Rightarrow> jsstring \<Rightarrow> bool" where
  "str_includes [] t = (t = [])"
| "str_includes (c # cs) t = (prefix t (c # cs) \<or> str_includes cs t)"

definition endsWith :: "jsstring \<Rightarrow> jsstring \<Rightarrow> bool" where
  "endsWith s t = (length t \<le> length s \<and> drop (length s - length t) s = t)"

text \<open>\<^verbatim>\<open>!jsonData.analises || !jsonData.repositorio_url\<close>, left to right.\<close>

definition missing_required :: "jsval \<Rightarrow> js_error + bool" where
  "missing_required jsonData =
     then_do (get_prop jsonData (utf16 ''analises'')) (\<lambda>a.
     if truthy a
     then then_do (get_prop jsonData (utf16 ''repositorio_url'')) (\<lambda>u. Inr (\<not> truthy u))
     else Inr True)"

text \<open>
  The \<^verbatim>\<open>try\<close> block of \<^verbatim>\<open>reader.onload\<close>, given what \<^verbatim>\<open>JSON.parse\<close> returned or
  threw. \<^verbatim>\<open>currentResults\<close> is assigned before \<^verbatim>\<open>displayResults\<close> runs, and every
  exception ends in the same \<^verbatim>\<open>catch\<close>.
\<close>

definition reader_onload :: "js_error + jsval \<Rightarrow> app_state \<Rightarrow> app_state" where
  "reader_onload parsed st =
     (case parsed of
        Inl e \<Rightarrow> st\<lparr>alerts := alerts st @ [ProcessingError]\<rparr>
      | Inr jsonData \<Rightarrow>
          (case missing_required jsonData of
             Inl e \<Rightarrow> st\<lparr>alerts := alerts st @ [ProcessingError]\<rparr>
           | Inr True \<Rightarrow> st\<lparr>alerts := alerts st @ [NotAnAnalysis]\<rparr>
           | Inr False \<Rightarrow>
               (case displayResults jsonData of
                  Inl e \<Rightarrow> st\<lparr>currentResults := jsonData, screen := Garbled,
                              alerts := alerts st @ [ProcessingError]\<rparr>
                | Inr view \<Rightarrow> st\<lparr>currentResults := jsonData, screen := Report view\<rparr>)))"

text \<open>
  \<^verbatim>\<open>handleFile(file)\<close>. The platform's \<^verbatim>\<open>JSON.parse\<close> is the parameter \<open>parse\<close>.
\<close>

definition handleFile :: "(jsstring \<Rightarrow> js_error + jsval) \<Rightarrow> import_file \<Rightarrow> app_state \<Rightarrow> app_state" where
  "handleFile parse f st =
     (if \<not> str_includes (file_type f) (utf16 ''json'') \<and> \<not> endsWith (file_name f) (utf16 ''.json'')
      then st\<lparr>alerts := alerts st @ [SelectJsonFile]\<rparr>
      else reader_onload (parse (file_text f)) st)"

text \<open>
  A parser that follows the model of \<^verbatim>\<open>JSON.parse\<close> wherever the model has an answer.
\<close>

definition follows_model :: "(jsstring \<Rightarrow> js_error + jsval) \<Rightarrow> bool" where
  "follows_model parse = (\<forall>s r. JSON_parse s = Some r \<longrightarrow> parse s = r)"

text \<open>The parser that reports a SyntaxError where the model has no answer.\<close>

definition model_parse :: "jsstring \<Rightarrow> js_error + jsval" where
  "model_parse s = (case JSON_parse s of Some r \<Rightarrow> r | None \<Rightarrow> Inl SyntaxError)"

text \<open>
  The file \<^verbatim>\<open>downloadReport\<close> offers: the Blob of type \<^verbatim>\<open>application/json\<close> holding
  \<^verbatim>\<open>JSON.stringify(currentResults, null, 2)\<close>, under the name
  \<^verbatim>\<open>analise-qualidade-<Date.now()>.json\<close>.
\<close>

definition report_file :: "nat \<Rightarrow> jsval \<Rightarrow> import_file" where
  "report_file now results =
     \<lparr> file_type = utf16 ''application/json'',
       file_name = utf16 ''analise-qualidade-'' @ digits now @ utf16 ''.json'',
       file_text = JSON_stringify results \<rparr>"

text \<open>\<^verbatim>\<open>downloadReport()\<close> at the time \<open>now\<close>: the file offered, if any, and the state.\<close>

definition downloadReport :: "nat \<Rightarrow> app_state \<Rightarrow> import_file option \<times> app_state" where
  "downloadReport now st =
     (if \<not> truthy (currentResults st)
      then (None, st\<lparr>alerts := alerts st @ [NothingToDownload]\<rparr>)
      else (Some (report_file now (currentResults st)), st))"

section \<open>Notions used to state the properties, and sample payloads\<close>

text \<open>
  A count field as the problem chart is meant to read it: a field that is missing (absent
  or null) counts as zero, a field holding a non-negative integer of at most \<open>2^52\<close>
  counts as that integer. The sum of two such counts is exact in a double.
\<close>

definition count_of :: "jsval \<Rightarrow> int option" where
  "count_of v =
     (case v of
        JUndefined \<Rightarrow> Some 0
      | JNull \<Rightarrow> Some 0
      | JNum (Fin n) \<Rightarrow> if 0 \<le> n \<and> n \<le> 2 ^ 52 then Some n else None
      | _ \<Rightarrow> None)"

text \<open>A value that is not an array and not an object.\<close>

fun is_primitive :: "jsval \<Rightarrow> bool" where
  "is_primitive (JArr xs) = False"
| "is_primitive (JObj kvs) = False"
| "is_primitive v = True"

text \<open>A number of the closed interval from 0 to 100.\<close>

definition in_0_100 :: "jsval \<Rightarrow> bool" where
  "in_0_100 v = (case v of JNum (Fin n) \<Rightarrow> 0 \<le> n \<and> n \<le> 100 | _ \<Rightarrow> False)"

text \<open>A field that is not a number at all, or a number from 0 to 100.\<close>

definition within_scale :: "jsval \<Rightarrow> bool" where
  "within_scale v = (case v of JNum n \<Rightarrow> in_0_100 (JNum n) | _ \<Rightarrow> True)"

text \<open>A payload with a repository URL and the four category sections given.\<close>

definition payload_of :: "jsval \<Rightarrow> jsval \<Rightarrow> jsval \<Rightarrow> jsval \<Rightarrow> jsval" where
  "payload_of seguranca desempenho confiabilidade testes =
     JObj [(utf16 ''repositorio_url'', JStr (utf16 ''https://github.com/o/r'')),
           (utf16 ''analises'', JObj [(utf16 ''seguranca'', seguranca),
              (utf16 ''desempenho'', desempenho),
              (utf16 ''confiabilidade'', confiabilidade),
              (utf16 ''testes'', testes)])]"

definition empty_section :: jsval where
  "empty_section = JObj [(utf16 ''metricas'', JObj [])]"

definition coverage_payload :: jsval where
  "coverage_payload = payload_of empty_section empty_section empty_section
     (JObj [(utf16 ''metricas'', JObj [(utf16 ''cobertura_estimada'', JNum (Fin 75))])])"

definition overshoot_payload :: jsval where
  "overshoot_payload = payload_of empty_section
     (JObj [(utf16 ''metricas'', JObj [(utf16 ''score_performance'', JNum (Fin 150))])])
     empty_section empty_section"

definition metrics_section :: "(jsstring \<times> jsval) list \<Rightarrow> jsval" where
  "metrics_section flds = JObj [(utf16 ''metricas'', JObj flds)]"

definition counts_payload :: jsval where
  "counts_payload = payload_of
     (metrics_section [(utf16 ''vulnerabilidades_encontradas'', JNum (Fin 3)),
                       (utf16 ''funcoes_sem_tratamento'', JNum (Fin 2))])
     (metrics_section [(utf16 ''estruturas_ineficientes'', JNum (Fin 1))])
     (metrics_section [(utf16 ''problemas_tratamento_erros'', JNum (Fin 4)),
                       (utf16 ''violacoes_padroes'', JNull)])
     (metrics_section [(utf16 ''funcionalidades_sem_teste'', JNum (Fin 8))])"

text \<open>
  The scenario of the specification, a payload with the testes section only; and the
  same with a repository URL, so that it passes the import check.
\<close>

definition scenario_analises :: jsval where
  "scenario_analises =
     JObj [(utf16 ''testes'', metrics_section [(utf16 ''cobertura_estimada'', JNum (Fin 75))])]"

definition scenario_payload :: jsval where
  "scenario_payload = JObj [(utf16 ''analises'', scenario_analises)]"

definition scenario_import :: jsval where
  "scenario_import =
     JObj [(utf16 ''repositorio_url'', JStr (utf16 ''https://github.com/o/r'')),
           (utf16 ''analises'', scenario_analises)]"

definition partial_payload :: jsval where
  "partial_payload =
     JObj [(utf16 ''repositorio_url'', JStr (utf16 ''https://github.com/o/r'')),
           (utf16 ''analises'', JObj [(utf16 ''seguranca'', empty_section),
              (utf16 ''desempenho'', empty_section),
              (utf16 ''confiabilidade'', empty_section)])]"

definition recommendations_section :: jsval where
  "recommendations_section =
     JObj [(utf16 ''dados_completos'', JObj [(utf16 ''recomendacoes'', JArr [])])]"

definition no_metricas_payload :: jsval where
  "no_metricas_payload = payload_of recommendations_section recommendations_section
     recommendations_section recommendations_section"

definition blank_url_payload :: "(jsstring \<times> jsval) list" where
  "blank_url_payload = [(utf16 ''repositorio_url'', JStr []), (utf16 ''analises'', JObj [])]"

definition error_status_payload :: "(jsstring \<times> jsval) list" where
  "error_status_payload = [(utf16 ''repositorio_url'', JStr (utf16 ''https://github.com/o/r'')),
     (utf16 ''status'', JStr (utf16 ''erro'')), (utf16 ''analises'', JObj [])]"

text \<open>
  A complete report: every section has its \<^verbatim>\<open>metricas\<close> and its
  \<^verbatim>\<open>dados_completos.recomendacoes\<close>; the coverage is the parameter.
\<close>

definition complete_section :: "(jsstring \<times> jsval) list \<Rightarrow> jsval" where
  "complete_section flds =
     JObj [(utf16 ''metricas'', JObj flds),
           (utf16 ''dados_completos'', JObj [(utf16 ''recomendacoes'', JArr [])])]"

definition report_with :: "jsval \<Rightarrow> jsval" where
  "report_with cobertura = payload_of
     (complete_section [(utf16 ''nivel_risco'', JStr Alto)])
     (complete_section [(utf16 ''score_performance'', JNum (Fin 90))])
     (complete_section [(utf16 ''nivel_confiabilidade'', JStr Medio)])
     (complete_section [(utf16 ''cobertura_estimada'', cobertura)])"

definition initial_state :: app_state where
  "initial_state = \<lparr> currentResults = JNull, screen = NoReport, alerts = [] \<rparr>"

definition text_file :: import_file where
  "text_file = \<lparr> file_type = utf16 ''text/plain'', file_name = utf16 ''report.txt'',
     file_text = utf16 ''{\"analises\":{},\"repositorio_url\":\"u\"}'' \<rparr>"

definition empty_payload :: jsval where
  "empty_payload = payload_of empty_section empty_section empty_section empty_section"

section \<open>Properties\<close>

subsection \<open>Basic facts\<close>

lemma of_char_less_256: "(of_char c :: nat) < 256"
proof -
  have "(of_char c :: nat) = of_char c mod 256" by (simp only: of_char_mod_256)
  also have "\<dots> < 256" by simp
  finally show ?thesis .
qed

lemma unat_small: "n < 256 \<Longrightarrow> unat (of_nat n :: 16 word) = n"
  by (simp add: unat_of_nat)

lemma code_unit_inj: "(of_nat (of_char c) :: 16 word) = of_nat (of_char d) \<longleftrightarrow> c = d"
proof
  assume h: "(of_nat (of_char c) :: 16 word) = of_nat (of_char d)"
  have "unat (of_nat (of_char c) :: 16 word) = unat (of_nat (of_char d) :: 16 word)"
    by (simp only: h)
  then have "(of_char c :: nat) = of_char d"
    by (simp only: unat_small [OF of_char_less_256])
  then show "c = d" by (simp only: of_char_eq_iff)
next
  assume "c = d" then show "(of_nat (of_char c) :: 16 word) = of_nat (of_char d)" by (simp only:)
qed

lemma utf16_eq_iff [simp]: "utf16 a = utf16 b \<longleftrightarrow> a = b"
proof (induction a arbitrary: b)
  case Nil
  then show ?case by (auto simp add: utf16_def)
next
  case (Cons x xs)
  then show ?case by (cases b) (auto simp add: utf16_def code_unit_inj)
qed

lemma utf16_Nil [simp]: "utf16 [] = []" by (simp add: utf16_def)
lemma utf16_eq_Nil [simp]: "utf16 s = [] \<longleftrightarrow> s = []" "[] = utf16 s \<longleftrightarrow> s = []" by (auto simp add: utf16_def)
lemma utf16_append: "utf16 (a @ b) = utf16 a @ utf16 b" by (simp add: utf16_def)


lemma then_do_simps [simp]: "then_do (Inl e) f = Inl e" "then_do (Inr v) f = f v"
  by (simp_all add: then_do_def)

lemma then_do_eq_Inr: "then_do r f = Inr y \<longleftrightarrow> (\<exists>x. r = Inr x \<and> f x = Inr y)"
  by (cases r) simp_all

lemma get_prop_total: "get_prop v k = Inr x \<Longrightarrow> \<exists>y. get_prop v k' = Inr y"
  by (cases v) simp_all

lemma get_prop_js_or: "\<exists>y. get_prop (js_or m (JObj [])) k = Inr y"
  by (cases m) (simp_all add: js_or_def)

lemma metricas_of_readable: "metricas_of a c = Inr b \<Longrightarrow> \<exists>y. get_prop b k = Inr y"
  using get_prop_js_or by (auto simp add: metricas_of_def then_do_eq_Inr)

lemma level_names_distinct [simp]:
  "Alto \<noteq> Medio" "Alto \<noteq> Baixo" "Medio \<noteq> Baixo"
  "Medio \<noteq> Alto" "Baixo \<noteq> Alto" "Baixo \<noteq> Medio"
  by (simp_all add: Alto_def Medio_def Baixo_def utf16_def)

lemma bit_length_bound: "m < 2 ^ n \<Longrightarrow> bit_length m \<le> n"
proof (induction n arbitrary: m)
  case 0
  then show ?case by (subst bit_length.simps) simp
next
  case (Suc n)
  then have "m div 2 < 2 ^ n" by simp
  then have "bit_length (m div 2) \<le> n" by (rule Suc.IH)
  then show ?case by (subst bit_length.simps) simp
qed

lemma bit_length_power: "bit_length (2 ^ n) = Suc n"
proof (induction n)
  case 0
  show ?case by (subst bit_length.simps, subst bit_length.simps) simp
next
  case (Suc n)
  then show ?case by (subst bit_length.simps) simp
qed

lemma round_to_double_nat:
  assumes "m \<le> 2 ^ 53"
  shows "(let q = 2 ^ (bit_length m - 53); lo = m div q; r = m mod q
          in (if q < 2 * r \<or> (2 * r = q \<and> odd lo) then lo + 1 else lo) * q) = m"
proof (cases "m = 2 ^ 53")
  case True
  have "bit_length m - 53 = 1" unfolding True bit_length_power by simp
  then show ?thesis unfolding Let_def by (simp add: True)
next
  case False
  then have "m < 2 ^ 53" using assms by simp
  then have "bit_length m - 53 = 0" using bit_length_bound [of m 53] by simp
  then show ?thesis unfolding Let_def by simp
qed

lemma round_to_double_exact:
  assumes "\<bar>x\<bar> \<le> 2 ^ 53"
  shows "round_to_double x = Fin x"
proof -
  have m: "nat \<bar>x\<bar> \<le> 2 ^ 53" using assms by (simp add: nat_le_iff)
  have "(2::nat) ^ 53 < 2 ^ 1024" by simp
  then have "\<not> (2 ^ 1024 \<le> nat \<bar>x\<bar>)" using m by linarith
  then have small: "(2 ^ 1024 \<le> nat \<bar>x\<bar>) = False" by (rule iffD2 [OF eq_False])
  have "round_to_double x = Fin (if x < 0 then - int (nat \<bar>x\<bar>) else int (nat \<bar>x\<bar>))"
    unfolding round_to_double_def Let_def round_to_double_nat [OF m, unfolded Let_def]
    by (simp only: small if_False)
  then show ?thesis by simp
qed

lemma js_add_numbers:
  "js_add (JNum (Fin a)) (JNum (Fin b)) = Inr (JNum (round_to_double (a + b)))"
  by (simp add: js_add_def)

lemma js_add_counts:
  assumes "0 \<le> a" "a \<le> 2 ^ 52" "0 \<le> b" "b \<le> 2 ^ 52"
  shows "js_add (JNum (Fin a)) (JNum (Fin b)) = Inr (JNum (Fin (a + b)))"
proof -
  have "\<bar>a + b\<bar> \<le> 2 ^ 53" using assms by simp
  then show ?thesis by (simp add: js_add_numbers round_to_double_exact)
qed

lemma count_of_js_or:
  assumes "count_of x = Some n"
  shows "js_or x (JNum (Fin 0)) = JNum (Fin n) \<and> 0 \<le> n \<and> n \<le> 2 ^ 52"
proof (cases x)
  case (JNum m)
  with assms show ?thesis
    by (cases m) (auto simp add: count_of_def js_or_def split: if_splits)
qed (use assms in \<open>auto simp add: count_of_def js_or_def\<close>)

lemma problem_sum_counts:
  assumes "count_of (obj_get flds (utf16 k1)) = Some m"
    and "count_of (obj_get flds (utf16 k2)) = Some n"
  shows "problem_sum (JObj flds) k1 k2 = Inr (JNum (Fin (m + n)))"
  using count_of_js_or [OF assms(1)] count_of_js_or [OF assms(2)]
  by (simp add: problem_sum_def js_add_counts)

lemma metricas_of_object:
  assumes "obj_get an (utf16 c) = JObj sec"
    and "js_or (obj_get sec (utf16 ''metricas'')) (JObj []) = JObj flds"
  shows "metricas_of (JObj an) c = Inr (JObj flds)"
  using assms by (simp add: metricas_of_def)

lemma chart_bundles_object:
  assumes "obj_get rs (utf16 ''analises'') = JObj an"
    and "metricas_of (JObj an) ''seguranca'' = Inr s"
    and "metricas_of (JObj an) ''desempenho'' = Inr d"
    and "metricas_of (JObj an) ''confiabilidade'' = Inr c"
    and "metricas_of (JObj an) ''testes'' = Inr t"
  shows "chart_bundles (JObj rs) = Inr (s, d, c, t)"
  using assms by (simp add: chart_bundles_def js_or_def)

lemma payload_of_bundles:
  assumes "metricas_of (JObj [(utf16 ''seguranca'', s), (utf16 ''desempenho'', d),
             (utf16 ''confiabilidade'', c), (utf16 ''testes'', t)]) ''seguranca'' = Inr bs"
    and "metricas_of (JObj [(utf16 ''seguranca'', s), (utf16 ''desempenho'', d),
             (utf16 ''confiabilidade'', c), (utf16 ''testes'', t)]) ''desempenho'' = Inr bd"
    and "metricas_of (JObj [(utf16 ''seguranca'', s), (utf16 ''desempenho'', d),
             (utf16 ''confiabilidade'', c), (utf16 ''testes'', t)]) ''confiabilidade'' = Inr bc"
    and "metricas_of (JObj [(utf16 ''seguranca'', s), (utf16 ''desempenho'', d),
             (utf16 ''confiabilidade'', c), (utf16 ''testes'', t)]) ''testes'' = Inr bt"
  shows "chart_bundles (payload_of s d c t) = Inr (bs, bd, bc, bt)"
  unfolding payload_of_def
  by (rule chart_bundles_object [OF _ assms]) (simp add: obj_get_def)

lemma metricas_of_section:
  "obj_get an (utf16 c) = metrics_section flds \<Longrightarrow> metricas_of (JObj an) c = Inr (JObj flds)"
  by (simp add: metricas_of_def metrics_section_def obj_get_def js_or_def)

lemma metricas_of_empty_section:
  "obj_get an (utf16 c) = empty_section \<Longrightarrow> metricas_of (JObj an) c = Inr (JObj [])"
  by (simp add: metricas_of_def empty_section_def obj_get_def js_or_def)

lemma chart_bundles_empty_payload:
  "chart_bundles empty_payload = Inr (JObj [], JObj [], JObj [], JObj [])"
  unfolding empty_payload_def
  by (rule payload_of_bundles) (simp_all add: metricas_of_empty_section obj_get_def)

lemma displayProblemsChart_counts:
  assumes "chart_bundles results = Inr (JObj sm, JObj dm, JObj cm, JObj tm)"
    and "count_of (obj_get sm (utf16 ''vulnerabilidades_encontradas'')) = Some v"
    and "count_of (obj_get sm (utf16 ''funcoes_sem_tratamento'')) = Some f"
    and "count_of (obj_get dm (utf16 ''estruturas_ineficientes'')) = Some e"
    and "count_of (obj_get dm (utf16 ''funcoes_longas'')) = Some l"
    and "count_of (obj_get cm (utf16 ''problemas_tratamento_erros'')) = Some p"
    and "count_of (obj_get cm (utf16 ''violacoes_padroes'')) = Some q"
    and "count_of (obj_get tm (utf16 ''funcionalidades_sem_teste'')) = Some u"
  shows "displayProblemsChart results =
           Inr [JNum (Fin (v + f)), JNum (Fin (e + l)), JNum (Fin (p + q)), JNum (Fin u)]"
  using count_of_js_or [OF assms(8)]
  by (simp add: displayProblemsChart_def assms(1)
        problem_sum_counts [OF assms(2) assms(3)]
        problem_sum_counts [OF assms(4) assms(5)]
        problem_sum_counts [OF assms(6) assms(7)])

lemma count_of_absent [simp]: "count_of (obj_get [] k) = Some 0"
  by (simp add: count_of_def obj_get_def)

lemma displayProblemsChart_empty_payload:
  "displayProblemsChart empty_payload = Inr [JNum (Fin 0), JNum (Fin 0), JNum (Fin 0), JNum (Fin 0)]"
  using displayProblemsChart_counts [OF chart_bundles_empty_payload, of 0 0 0 0 0 0 0]
  by simp

lemmas eval_defs = payload_of_def empty_section_def recommendations_section_def
  chart_bundles_def metricas_of_def js_or_def obj_get_def
  displayRecommendations_def categories_def recomendacoes_of_def
  recommendation_items_def recommendations_array_def displayTechnicalDetails_def
  category_details_def createDetailsHTML_def displayRepoInfo_def

text \<open>
  C7. For a payload whose four sections hold metric bundles (\<^verbatim>\<open>metricas\<close> an object, or
  missing and then empty) with counts in their fields, the problem chart holds, in the
  order seguranca, desempenho, confiabilidade, testes, the sums
  vulnerabilidades_encontradas + funcoes_sem_tratamento,
  estruturas_ineficientes + funcoes_longas,
  problemas_tratamento_erros + violacoes_padroes, and funcionalidades_sem_teste alone,
  a missing field counting as zero; a payload whose four categories have empty metrics
  gives the counts 0, 0, 0, 0.
\<close>

theorem problem_distribution_counts:
  assumes "obj_get results (utf16 ''analises'') = JObj analises"
    and "obj_get analises (utf16 ''seguranca'') = JObj seguranca"
    and "js_or (obj_get seguranca (utf16 ''metricas'')) (JObj []) = JObj sm"
    and "obj_get analises (utf16 ''desempenho'') = JObj desempenho"
    and "js_or (obj_get desempenho (utf16 ''metricas'')) (JObj []) = JObj dm"
    and "obj_get analises (utf16 ''confiabilidade'') = JObj confiabilidade"
    and "js_or (obj_get confiabilidade (utf16 ''metricas'')) (JObj []) = JObj cm"
    and "obj_get analises (utf16 ''testes'') = JObj testes"
    and "js_or (obj_get testes (utf16 ''metricas'')) (JObj []) = JObj tm"
    and "count_of (obj_get sm (utf16 ''vulnerabilidades_encontradas'')) = Some v"
    and "count_of (obj_get sm (utf16 ''funcoes_sem_tratamento'')) = Some f"
    and "count_of (obj_get dm (utf16 ''estruturas_ineficientes'')) = Some e"
    and "count_of (obj_get dm (utf16 ''funcoes_longas'')) = Some l"
    and "count_of (obj_get cm (utf16 ''problemas_tratamento_erros'')) = Some p"
    and "count_of (obj_get cm (utf16 ''violacoes_padroes'')) = Some q"
    and "count_of (obj_get tm (utf16 ''funcionalidades_sem_teste'')) = Some u"
  shows "displayProblemsChart (JObj results) =
           Inr [JNum (Fin (v + f)), JNum (Fin (e + l)), JNum (Fin (p + q)), JNum (Fin u)]
         \<and> displayProblemsChart empty_payload =
           Inr [JNum (Fin 0), JNum (Fin 0), JNum (Fin 0), JNum (Fin 0)]"
proof -
  have b: "chart_bundles (JObj results) = Inr (JObj sm, JObj dm, JObj cm, JObj tm)"
    by (rule chart_bundles_object [OF assms(1)])
       (rule metricas_of_object [OF assms(2) assms(3)],
        rule metricas_of_object [OF assms(4) assms(5)],
        rule metricas_of_object [OF assms(6) assms(7)],
        rule metricas_of_object [OF assms(8) assms(9)])
  show ?thesis
    using displayProblemsChart_counts [OF b assms(10-16)] displayProblemsChart_empty_payload
    by simp
qed

theorem problem_distribution_counts_witness:
  "displayProblemsChart counts_payload =
     Inr [JNum (Fin (3 + 2)), JNum (Fin (1 + 0)), JNum (Fin (4 + 0)), JNum (Fin 8)]"
proof -
  let ?sm = "[(utf16 ''vulnerabilidades_encontradas'', JNum (Fin 3)),
              (utf16 ''funcoes_sem_tratamento'', JNum (Fin 2))]"
  let ?dm = "[(utf16 ''estruturas_ineficientes'', JNum (Fin 1))]"
  let ?cm = "[(utf16 ''problemas_tratamento_erros'', JNum (Fin 4)),
              (utf16 ''violacoes_padroes'', JNull)]"
  let ?tm = "[(utf16 ''funcionalidades_sem_teste'', JNum (Fin 8))]"
  let ?an = "[(utf16 ''seguranca'', metrics_section ?sm), (utf16 ''desempenho'', metrics_section ?dm),
              (utf16 ''confiabilidade'', metrics_section ?cm), (utf16 ''testes'', metrics_section ?tm)]"
  let ?rs = "[(utf16 ''repositorio_url'', JStr (utf16 ''https://github.com/o/r'')),
              (utf16 ''analises'', JObj ?an)]"
  have p: "counts_payload = JObj ?rs" by (simp add: counts_payload_def payload_of_def)
  have a: "obj_get ?rs (utf16 ''analises'') = JObj ?an" by (simp add: obj_get_def)
  have s1: "obj_get ?an (utf16 ''seguranca'') = JObj [(utf16 ''metricas'', JObj ?sm)]"
    by (simp add: obj_get_def metrics_section_def)
  have s2: "js_or (obj_get [(utf16 ''metricas'', JObj ?sm)] (utf16 ''metricas'')) (JObj []) = JObj ?sm"
    by (simp add: obj_get_def js_or_def)
  have d1: "obj_get ?an (utf16 ''desempenho'') = JObj [(utf16 ''metricas'', JObj ?dm)]"
    by (simp add: obj_get_def metrics_section_def)
  have d2: "js_or (obj_get [(utf16 ''metricas'', JObj ?dm)] (utf16 ''metricas'')) (JObj []) = JObj ?dm"
    by (simp add: obj_get_def js_or_def)
  have c1: "obj_get ?an (utf16 ''confiabilidade'') = JObj [(utf16 ''metricas'', JObj ?cm)]"
    by (simp add: obj_get_def metrics_section_def)
  have c2: "js_or (obj_get [(utf16 ''metricas'', JObj ?cm)] (utf16 ''metricas'')) (JObj []) = JObj ?cm"
    by (simp add: obj_get_def js_or_def)
  have t1: "obj_get ?an (utf16 ''testes'') = JObj [(utf16 ''metricas'', JObj ?tm)]"
    by (simp add: obj_get_def metrics_section_def)
  have t2: "js_or (obj_get [(utf16 ''metricas'', JObj ?tm)] (utf16 ''metricas'')) (JObj []) = JObj ?tm"
    by (simp add: obj_get_def js_or_def)
  have k1: "count_of (obj_get ?sm (utf16 ''vulnerabilidades_encontradas'')) = Some 3"
    by (simp add: obj_get_def count_of_def)
  have k2: "count_of (obj_get ?sm (utf16 ''funcoes_sem_tratamento'')) = Some 2"
    by (simp add: obj_get_def count_of_def)
  have k3: "count_of (obj_get ?dm (utf16 ''estruturas_ineficientes'')) = Some 1"
    by (simp add: obj_get_def count_of_def)
  have k4: "count_of (obj_get ?dm (utf16 ''funcoes_longas'')) = Some 0"
    by (simp add: obj_get_def count_of_def)
  have k5: "count_of (obj_get ?cm (utf16 ''problemas_tratamento_erros'')) = Some 4"
    by (simp add: obj_get_def count_of_def)
  have k6: "count_of (obj_get ?cm (utf16 ''violacoes_padroes'')) = Some 0"
    by (simp add: obj_get_def count_of_def)
  have k7: "count_of (obj_get ?tm (utf16 ''funcionalidades_sem_teste'')) = Some 8"
    by (simp add: obj_get_def count_of_def)
  from problem_distribution_counts [OF a s1 s2 d1 d2 c1 c2 t1 t2 k1 k2 k3 k4 k5 k6 k7]
  show ?thesis unfolding p by (rule conjunct1)
qed

lemma chart_bundles_Inr:
  "chart_bundles results = Inr (s, d, c, t) \<longleftrightarrow>
     (\<exists>a. get_prop results (utf16 ''analises'') = Inr a
        \<and> metricas_of (js_or a (JObj [])) ''seguranca'' = Inr s
        \<and> metricas_of (js_or a (JObj [])) ''desempenho'' = Inr d
        \<and> metricas_of (js_or a (JObj [])) ''confiabilidade'' = Inr c
        \<and> metricas_of (js_or a (JObj [])) ''testes'' = Inr t)"
  by (auto simp add: chart_bundles_def then_do_eq_Inr Let_def)

lemma displayQualityChart_of_bundles:
  assumes "chart_bundles results = Inr (s, d, c, t)"
    and "get_prop s (utf16 ''nivel_risco'') = Inr r"
    and "get_prop d (utf16 ''score_performance'') = Inr p"
    and "get_prop c (utf16 ''nivel_confiabilidade'') = Inr n"
    and "get_prop t (utf16 ''cobertura_estimada'') = Inr cov"
  shows "displayQualityChart results =
           Inr [getNumericScore r, getNumericScore p, getNumericScore n, js_or cov (JNum (Fin 0))]"
  by (simp add: displayQualityChart_def assms)

lemma displayQualityChart_Inr:
  assumes "displayQualityChart results = Inr vs"
  shows "\<exists>s d c t r p n cov. chart_bundles results = Inr (s, d, c, t)
      \<and> get_prop s (utf16 ''nivel_risco'') = Inr r
      \<and> get_prop d (utf16 ''score_performance'') = Inr p
      \<and> get_prop c (utf16 ''nivel_confiabilidade'') = Inr n
      \<and> get_prop t (utf16 ''cobertura_estimada'') = Inr cov
      \<and> vs = [getNumericScore r, getNumericScore p, getNumericScore n, js_or cov (JNum (Fin 0))]"
  using assms unfolding displayQualityChart_def then_do_eq_Inr
  by (auto simp add: then_do_eq_Inr)

lemma displayQualityChart_total:
  assumes "chart_bundles results = Inr (s, d, c, t)"
  shows "\<exists>q. displayQualityChart results = Inr q"
proof -
  obtain a where ms: "metricas_of a ''seguranca'' = Inr s"
    and md: "metricas_of a ''desempenho'' = Inr d"
    and mc: "metricas_of a ''confiabilidade'' = Inr c"
    and mt: "metricas_of a ''testes'' = Inr t"
    using assms unfolding chart_bundles_Inr by blast
  obtain r p n cov where "get_prop s (utf16 ''nivel_risco'') = Inr r"
    "get_prop d (utf16 ''score_performance'') = Inr p"
    "get_prop c (utf16 ''nivel_confiabilidade'') = Inr n"
    "get_prop t (utf16 ''cobertura_estimada'') = Inr cov"
    using metricas_of_readable [OF ms] metricas_of_readable [OF md]
      metricas_of_readable [OF mc] metricas_of_readable [OF mt] by metis
  from displayQualityChart_of_bundles [OF assms this] show ?thesis by blast
qed

lemma js_add_percent_undefined:
  "js_add JUndefined (JStr (utf16 ''%'')) = Inr (JStr (utf16 ''undefined'' @ utf16 ''%''))"
  by (simp add: js_add_def)

lemma js_add_percent_number:
  "js_add (JNum n) (JStr (utf16 ''%'')) = Inr (JStr (num_to_string n @ utf16 ''%''))"
  by (simp add: js_add_def)

lemma security_score_primitive:
  assumes "is_primitive v"
  shows "security_score v =
     Inr (if v = JStr Alto then JStr (utf16 ''C'')
          else if v = JStr Medio then JStr (utf16 ''B'')
          else JStr (utf16 ''A''))"
  using assms by (cases v) (simp_all add: security_score_def)

lemma to_string_primitive: "is_primitive x \<Longrightarrow> \<exists>s. to_string x = Inr s"
  by (cases x) simp_all

lemma text_content_primitive: "is_primitive x \<Longrightarrow> \<exists>s. text_content x = Inr s"
  by (cases x) (simp_all add: text_content_def)

lemma updateMetricCard_primitive:
  assumes "is_primitive sc" and "is_primitive d1" and "is_primitive d2"
  shows "updateMetricCard sc graded d1 d2 =
     Inr \<lparr> score = sc, css_class = getQualityClass graded, detail1 = d1, detail2 = d2 \<rparr>"
proof -
  obtain s l1 l2 where "text_content sc = Inr s" "to_string d1 = Inr l1" "to_string d2 = Inr l2"
    using text_content_primitive [OF assms(1)] to_string_primitive [OF assms(2)]
      to_string_primitive [OF assms(3)] by blast
  then show ?thesis by (simp add: updateMetricCard_def)
qed

lemma updateMetricCard_score:
  "updateMetricCard sc graded d1 d2 = Inr written \<Longrightarrow> score written = sc"
  by (auto simp add: updateMetricCard_def then_do_eq_Inr)

lemma js_or_primitive: "is_primitive v \<Longrightarrow> is_primitive (js_or v (JNum (Fin 0)))"
  by (simp add: js_or_def)

lemma empty_bundle_cards:
  "\<exists>card. security_card (JObj []) = Inr card"
  "\<exists>card. performance_card (JObj []) = Inr card"
  "\<exists>card. reliability_card (JObj []) = Inr card"
  "\<exists>card. testing_card (JObj []) = Inr card"
  by (simp_all add: security_card_def performance_card_def reliability_card_def
      testing_card_def obj_get_def security_score_primitive js_add_percent_undefined
      js_add_percent_number js_or_def Let_def updateMetricCard_primitive
      del: num_to_string.simps)

lemma displayMetrics_empty_bundles:
  assumes "chart_bundles results = Inr (JObj [], JObj [], JObj [], JObj [])"
  shows "\<exists>m. displayMetrics results = Inr m"
proof -
  obtain a where a: "get_prop results (utf16 ''analises'') = Inr a"
    and ms: "metricas_of (js_or a (JObj [])) ''seguranca'' = Inr (JObj [])"
    and md: "metricas_of (js_or a (JObj [])) ''desempenho'' = Inr (JObj [])"
    and mc: "metricas_of (js_or a (JObj [])) ''confiabilidade'' = Inr (JObj [])"
    and mt: "metricas_of (js_or a (JObj [])) ''testes'' = Inr (JObj [])"
    using assms unfolding chart_bundles_Inr by blast
  obtain sec perf rel tc where "security_card (JObj []) = Inr sec"
    "performance_card (JObj []) = Inr perf" "reliability_card (JObj []) = Inr rel"
    "testing_card (JObj []) = Inr tc"
    using empty_bundle_cards by blast
  then show ?thesis by (simp add: displayMetrics_def a ms md mc mt Let_def)
qed

lemma displayProblemsChart_empty_bundles:
  assumes "chart_bundles results = Inr (JObj [], JObj [], JObj [], JObj [])"
  shows "\<exists>p. displayProblemsChart results = Inr p"
  using displayProblemsChart_counts [OF assms, of 0 0 0 0 0 0 0] by simp

lemma chart_bundles_coverage_payload:
  "chart_bundles coverage_payload =
     Inr (JObj [], JObj [], JObj [], JObj [(utf16 ''cobertura_estimada'', JNum (Fin 75))])"
  unfolding coverage_payload_def
  by (rule payload_of_bundles)
     (simp_all add: metricas_of_empty_section obj_get_def,
      simp add: metricas_of_def obj_get_def js_or_def)

lemma seventy_five_percent: "num_to_string (Fin 75) @ utf16 ''%'' = utf16 ''75%''"
  by (simp add: magnitude_to_string_def digits.simps utf16_def)

lemma coverage_payload_testing_card:
  "\<exists>sec perf rel. displayMetrics coverage_payload =
     Inr \<lparr> security = sec, performance = perf, reliability = rel,
           testing = \<lparr> score = JStr (utf16 ''75%''), css_class = Good,
                       detail1 = JNum (Fin 75), detail2 = JNum (Fin 0) \<rparr> \<rparr>"
proof -
  obtain a where a: "get_prop coverage_payload (utf16 ''analises'') = Inr a"
    and ms: "metricas_of (js_or a (JObj [])) ''seguranca'' = Inr (JObj [])"
    and md: "metricas_of (js_or a (JObj [])) ''desempenho'' = Inr (JObj [])"
    and mc: "metricas_of (js_or a (JObj [])) ''confiabilidade'' = Inr (JObj [])"
    and mt: "metricas_of (js_or a (JObj [])) ''testes'' =
               Inr (JObj [(utf16 ''cobertura_estimada'', JNum (Fin 75))])"
    using chart_bundles_coverage_payload unfolding chart_bundles_Inr by blast
  obtain sec perf rel where "security_card (JObj []) = Inr sec"
    "performance_card (JObj []) = Inr perf" "reliability_card (JObj []) = Inr rel"
    using empty_bundle_cards by blast
  moreover have "testing_card (JObj [(utf16 ''cobertura_estimada'', JNum (Fin 75))]) =
      Inr \<lparr> score = JStr (utf16 ''75%''), css_class = Good,
            detail1 = JNum (Fin 75), detail2 = JNum (Fin 0) \<rparr>"
    by (simp add: testing_card_def obj_get_def js_or_def js_add_percent_number
        seventy_five_percent Let_def updateMetricCard_primitive del: num_to_string.simps)
  ultimately show ?thesis by (simp add: displayMetrics_def a ms md mc mt Let_def)
qed

lemma displayQualityChart_coverage:
  "displayQualityChart coverage_payload =
     Inr [JNum (Fin 0), JNum (Fin 0), JNum (Fin 0), JNum (Fin 75)]"
  by (simp add: displayQualityChart_def chart_bundles_coverage_payload obj_get_def js_or_def)

lemma missing_required_obj:
  "missing_required (JObj kvs) =
     Inr (\<not> truthy (obj_get kvs (utf16 ''analises''))
          \<or> \<not> truthy (obj_get kvs (utf16 ''repositorio_url'')))"
  by (simp add: missing_required_def)

lemma scenario_payload_metrics:
  "displayMetrics scenario_payload = Inl TypeError"
  "displayMetrics scenario_import = Inl TypeError"
  by (simp_all add: scenario_payload_def scenario_import_def scenario_analises_def
      displayMetrics_def metricas_of_def obj_get_def js_or_def)

lemma scenario_payload_radar:
  "displayQualityChart scenario_payload = Inl TypeError"
  "displayQualityChart scenario_import = Inl TypeError"
  by (simp_all add: scenario_payload_def scenario_import_def scenario_analises_def
      displayQualityChart_def chart_bundles_def metricas_of_def obj_get_def js_or_def)

lemma scenario_import_results: "displayResults scenario_import = Inl TypeError"
  by (simp add: displayResults_def scenario_payload_metrics)
     (simp add: scenario_import_def displayRepoInfo_def obj_get_def js_or_def)

text \<open>
  C8. The claim is that \<open>getNumericScore\<close> passes numbers through and maps "Alto",
  "Medio" (written with an acute e) and "Baixo" to 85, 65 and 40 and anything else to 0,
  and that a payload with cobertura_estimada 75 yields the radar value 75 and the testing
  score "75%". The mapping is as claimed, and so are the two values when the other three
  sections are there. On the payload of the scenario, which has the testes section only,
  the code throws instead: \<^verbatim>\<open>displayMetrics\<close> and \<^verbatim>\<open>displayQualityChart\<close> both read
  \<^verbatim>\<open>analises.seguranca.metricas\<close> first. As it stands that payload has no repository
  URL and the import rejects it; with a URL it passes the check and the import ends in
  the error alert.
\<close>

theorem coverage_scenario_throws:
  "displayMetrics scenario_payload = Inl TypeError
   \<and> displayQualityChart scenario_payload = Inl TypeError
   \<and> missing_required scenario_payload = Inr True
   \<and> missing_required scenario_import = Inr False
   \<and> displayMetrics scenario_import = Inl TypeError
   \<and> displayQualityChart scenario_import = Inl TypeError
   \<and> reader_onload (Inr scenario_import) st =
        st\<lparr>currentResults := scenario_import, screen := Garbled,
           alerts := alerts st @ [ProcessingError]\<rparr>
   \<and> displayQualityChart coverage_payload =
        Inr [JNum (Fin 0), JNum (Fin 0), JNum (Fin 0), JNum (Fin 75)]
   \<and> map_sum id (\<lambda>m. score (testing m)) (displayMetrics coverage_payload) =
        Inr (JStr (utf16 ''75%''))
   \<and> getNumericScore (JNum n) = JNum n
   \<and> getNumericScore (JStr s) =
        (if s = Alto then JNum (Fin 85) else if s = Medio then JNum (Fin 65)
         else if s = Baixo then JNum (Fin 40) else JNum (Fin 0))
   \<and> getNumericScore JUndefined = JNum (Fin 0)
   \<and> getNumericScore JNull = JNum (Fin 0)
   \<and> getNumericScore (JBool b) = JNum (Fin 0)
   \<and> getNumericScore (JArr xs) = JNum (Fin 0)
   \<and> getNumericScore (JObj kvs) = JNum (Fin 0)"
proof -
  have m0: "missing_required scenario_payload = Inr True"
    by (simp add: scenario_payload_def missing_required_obj obj_get_def scenario_analises_def)
  have m: "missing_required scenario_import = Inr False"
    by (simp add: scenario_import_def missing_required_obj obj_get_def scenario_analises_def)
  have r: "reader_onload (Inr scenario_import) st =
        st\<lparr>currentResults := scenario_import, screen := Garbled,
           alerts := alerts st @ [ProcessingError]\<rparr>"
    by (simp add: reader_onload_def m scenario_import_results)
  obtain sec perf rel where "displayMetrics coverage_payload =
     Inr \<lparr> security = sec, performance = perf, reliability = rel,
           testing = \<lparr> score = JStr (utf16 ''75%''), css_class = Good,
                       detail1 = JNum (Fin 75), detail2 = JNum (Fin 0) \<rparr> \<rparr>"
    using coverage_payload_testing_card by blast
  then have c: "map_sum id (\<lambda>m. score (testing m)) (displayMetrics coverage_payload) =
        Inr (JStr (utf16 ''75%''))"
    by simp
  show ?thesis
    by (simp add: m0 m r c scenario_payload_metrics scenario_payload_radar
        displayQualityChart_coverage)
qed

text \<open>
  C2, as amended. Whenever the radar dataset is built it has exactly four values, for
  seguranca, desempenho, confiabilidade and testes in that order. A value lies in the
  interval from 0 to 100 when the field behind it is not a number, or is a number of
  that interval (for testes: when cobertura_estimada is falsy or such a number). A
  number outside the interval is passed through unchanged, as the counterexample shows
  for score_performance 150.
\<close>

theorem radar_values_amended:
  assumes "displayQualityChart results = Inr vs"
  shows "length vs = 4 \<and>
    (\<exists>s d c t r p n cov. chart_bundles results = Inr (s, d, c, t)
      \<and> get_prop s (utf16 ''nivel_risco'') = Inr r
      \<and> get_prop d (utf16 ''score_performance'') = Inr p
      \<and> get_prop c (utf16 ''nivel_confiabilidade'') = Inr n
      \<and> get_prop t (utf16 ''cobertura_estimada'') = Inr cov
      \<and> vs = [getNumericScore r, getNumericScore p, getNumericScore n, js_or cov (JNum (Fin 0))]
      \<and> (within_scale r \<longrightarrow> in_0_100 (vs ! 0))
      \<and> (within_scale p \<longrightarrow> in_0_100 (vs ! 1))
      \<and> (within_scale n \<longrightarrow> in_0_100 (vs ! 2))
      \<and> (\<not> truthy cov \<or> in_0_100 cov \<longrightarrow> in_0_100 (vs ! 3)))"
proof -
  have gns: "\<And>x. within_scale x \<Longrightarrow> in_0_100 (getNumericScore x)"
  proof -
    fix x assume "within_scale x"
    then show "in_0_100 (getNumericScore x)"
      by (cases x) (simp_all add: within_scale_def in_0_100_def)
  qed
  have cov: "\<And>x. \<not> truthy x \<or> in_0_100 x \<Longrightarrow> in_0_100 (js_or x (JNum (Fin 0)))"
    by (auto simp add: js_or_def in_0_100_def)
  from displayQualityChart_Inr [OF assms]
  obtain s d c t r p n cv where h: "chart_bundles results = Inr (s, d, c, t)"
      "get_prop s (utf16 ''nivel_risco'') = Inr r"
      "get_prop d (utf16 ''score_performance'') = Inr p"
      "get_prop c (utf16 ''nivel_confiabilidade'') = Inr n"
      "get_prop t (utf16 ''cobertura_estimada'') = Inr cv"
      "vs = [getNumericScore r, getNumericScore p, getNumericScore n, js_or cv (JNum (Fin 0))]"
    by blast
  have "length vs = 4" using h(6) by simp
  moreover have "(within_scale r \<longrightarrow> in_0_100 (vs ! 0))
      \<and> (within_scale p \<longrightarrow> in_0_100 (vs ! 1))
      \<and> (within_scale n \<longrightarrow> in_0_100 (vs ! 2))
      \<and> (\<not> truthy cv \<or> in_0_100 cv \<longrightarrow> in_0_100 (vs ! 3))"
    using gns cov by (auto simp add: h(6) numeral_3_eq_3)
  ultimately show ?thesis using h by blast
qed

lemma displayQualityChart_overshoot:
  "displayQualityChart overshoot_payload =
     Inr [JNum (Fin 0), JNum (Fin 150), JNum (Fin 0), JNum (Fin 0)]"
  by (simp add: overshoot_payload_def payload_of_def empty_section_def displayQualityChart_def
      chart_bundles_def metricas_of_def js_or_def obj_get_def)

theorem radar_values_counterexample:
  "displayQualityChart overshoot_payload =
     Inr [JNum (Fin 0), JNum (Fin 150), JNum (Fin 0), JNum (Fin 0)]
   \<and> \<not> in_0_100 (JNum (Fin 150))"
  by (simp add: displayQualityChart_overshoot in_0_100_def)

theorem radar_values_amended_witness:
  "length [JNum (Fin 0), JNum (Fin 0), JNum (Fin 0), JNum (Fin 75)] = 4
   \<and> in_0_100 (JNum (Fin 75)) \<and> in_0_100 (JNum (Fin 0))"
  using radar_values_amended [OF displayQualityChart_coverage]
  by (simp add: in_0_100_def)

lemma displayResults_after_charts:
  assumes "displayRepoInfo results = Inr ()"
  shows "displayResults results =
     then_do (displayMetrics results) (\<lambda>m.
     then_do (displayProblemsChart results) (\<lambda>p.
     then_do (displayQualityChart results) (\<lambda>q.
     then_do (displayRecommendations results) (\<lambda>r.
     then_do (displayTechnicalDetails results) (\<lambda>d.
     Inr \<lparr> cards = m, problems = p, radar = q, recommendations = r, details = d \<rparr>)))))"
  by (simp add: displayResults_def assms)

lemma displayResults_recommendations_throw:
  assumes "chart_bundles results = Inr (JObj [], JObj [], JObj [], JObj [])"
    and "displayRepoInfo results = Inr ()"
    and "displayRecommendations results = Inl e"
  shows "displayResults results = Inl e"
proof -
  obtain m p q where "displayMetrics results = Inr m" "displayProblemsChart results = Inr p"
    "displayQualityChart results = Inr q"
    using displayMetrics_empty_bundles [OF assms(1)] displayProblemsChart_empty_bundles [OF assms(1)]
      displayQualityChart_total [OF assms(1)] by blast
  then show ?thesis
    by (simp add: displayResults_after_charts [OF assms(2)] assms(3))
qed

lemma displayResults_details_throw:
  assumes "chart_bundles results = Inr (JObj [], JObj [], JObj [], JObj [])"
    and "displayRepoInfo results = Inr ()"
    and "displayRecommendations results = Inr r"
    and "displayTechnicalDetails results = Inl e"
  shows "displayResults results = Inl e"
proof -
  obtain m p q where "displayMetrics results = Inr m" "displayProblemsChart results = Inr p"
    "displayQualityChart results = Inr q"
    using displayMetrics_empty_bundles [OF assms(1)] displayProblemsChart_empty_bundles [OF assms(1)]
      displayQualityChart_total [OF assms(1)] by blast
  then show ?thesis
    by (simp add: displayResults_after_charts [OF assms(2)] assms(3) assms(4))
qed

lemma partial_payload_metrics: "displayMetrics partial_payload = Inl TypeError"
proof -
  have a: "get_prop partial_payload (utf16 ''analises'') =
      Inr (JObj [(utf16 ''seguranca'', empty_section), (utf16 ''desempenho'', empty_section),
                 (utf16 ''confiabilidade'', empty_section)])"
    by (simp add: partial_payload_def obj_get_def)
  have m: "\<And>k. metricas_of (JObj [(utf16 ''seguranca'', empty_section),
      (utf16 ''desempenho'', empty_section), (utf16 ''confiabilidade'', empty_section)]) k =
      (if k = ''seguranca'' \<or> k = ''desempenho'' \<or> k = ''confiabilidade''
       then Inr (JObj []) else Inl TypeError)"
    by (simp add: metricas_of_def empty_section_def obj_get_def js_or_def)
  obtain x y z where "security_card (JObj []) = Inr x" "performance_card (JObj []) = Inr y"
    "reliability_card (JObj []) = Inr z"
    using empty_bundle_cards by blast
  then show ?thesis
    by (simp add: displayMetrics_def a m js_or_def)
qed

lemma partial_payload_results: "displayResults partial_payload = Inl TypeError"
  by (simp add: displayResults_def partial_payload_metrics)
     (simp add: partial_payload_def displayRepoInfo_def obj_get_def js_or_def)

lemma empty_payload_recommendations: "displayRecommendations empty_payload = Inl TypeError"
  by (simp add: empty_payload_def eval_defs)

lemma empty_payload_results: "displayResults empty_payload = Inl TypeError"
proof (rule displayResults_recommendations_throw [OF chart_bundles_empty_payload])
  show "displayRepoInfo empty_payload = Inr ()"
    by (simp add: empty_payload_def payload_of_def displayRepoInfo_def obj_get_def js_or_def)
qed (rule empty_payload_recommendations)

lemma chart_bundles_no_metricas:
  "chart_bundles no_metricas_payload = Inr (JObj [], JObj [], JObj [], JObj [])"
  by (simp add: no_metricas_payload_def payload_of_def recommendations_section_def
      chart_bundles_def metricas_of_def js_or_def obj_get_def)

lemma no_metricas_payload_details: "displayTechnicalDetails no_metricas_payload = Inl TypeError"
  by (simp add: no_metricas_payload_def eval_defs)

lemma no_metricas_payload_recommendations: "displayRecommendations no_metricas_payload = Inr []"
  by (simp add: no_metricas_payload_def eval_defs)

lemma no_metricas_payload_results: "displayResults no_metricas_payload = Inl TypeError"
proof (rule displayResults_details_throw [OF chart_bundles_no_metricas])
  show "displayRepoInfo no_metricas_payload = Inr ()"
    by (simp add: no_metricas_payload_def payload_of_def displayRepoInfo_def obj_get_def js_or_def)
qed (rule no_metricas_payload_recommendations, rule no_metricas_payload_details)

text \<open>
  C1. The claim is that a validated payload with a missing category section, or a
  missing \<^verbatim>\<open>metricas\<close> or \<^verbatim>\<open>dados_completos\<close>, still yields a report. The code throws
  instead: without the testes section \<^verbatim>\<open>displayMetrics\<close> ends in a TypeError, with
  sections that have no \<^verbatim>\<open>dados_completos\<close> \<^verbatim>\<open>displayRecommendations\<close> does, and with
  sections that have no \<^verbatim>\<open>metricas\<close> \<^verbatim>\<open>displayTechnicalDetails\<close> does; each time
  \<^verbatim>\<open>displayResults\<close> fails and the import ends in the error alert.
\<close>

theorem partial_report_throws:
  "missing_required partial_payload = Inr False
   \<and> displayMetrics partial_payload = Inl TypeError
   \<and> displayResults partial_payload = Inl TypeError
   \<and> missing_required empty_payload = Inr False
   \<and> displayRecommendations empty_payload = Inl TypeError
   \<and> displayResults empty_payload = Inl TypeError
   \<and> missing_required no_metricas_payload = Inr False
   \<and> displayTechnicalDetails no_metricas_payload = Inl TypeError
   \<and> displayResults no_metricas_payload = Inl TypeError
   \<and> reader_onload (Inr partial_payload) st =
        st\<lparr>currentResults := partial_payload, screen := Garbled,
           alerts := alerts st @ [ProcessingError]\<rparr>"
proof -
  have m1: "missing_required partial_payload = Inr False"
    by (simp add: partial_payload_def missing_required_obj obj_get_def)
  have m2: "missing_required empty_payload = Inr False"
    by (simp add: empty_payload_def payload_of_def missing_required_obj obj_get_def)
  have m3: "missing_required no_metricas_payload = Inr False"
    by (simp add: no_metricas_payload_def payload_of_def missing_required_obj obj_get_def)
  have r: "reader_onload (Inr partial_payload) st =
        st\<lparr>currentResults := partial_payload, screen := Garbled,
           alerts := alerts st @ [ProcessingError]\<rparr>"
    by (simp add: reader_onload_def m1 partial_payload_results)
  show ?thesis
    by (simp only: m1 m2 m3 r partial_payload_metrics partial_payload_results
        empty_payload_recommendations empty_payload_results
        no_metricas_payload_details no_metricas_payload_results simp_thms)
qed

lemma map_throw_trim_strings: "map_throw trim_item (map JStr xs) = Inr (map trim xs)"
  by (induction xs) simp_all

lemma split_list_not_Nil: "split_list s \<noteq> []"
  by (induction s) (auto split: list.splits)

lemma trim_Nil [simp]: "trim [] = []"
  by (simp add: trim_def)

lemma recommendation_items_array:
  "recommendation_items (JArr (map JStr xs)) = Inr (map trim xs)"
  by (simp add: recommendation_items_def recommendations_array_def js_or_def
      map_throw_trim_strings)

lemma recommendation_items_string:
  "recommendation_items (JStr s) = Inr (filter (\<lambda>r. r \<noteq> []) (map trim (split_list s)))"
proof (cases "s = []")
  case True
  then show ?thesis
    by (simp add: recommendation_items_def recommendations_array_def js_or_def)
next
  case False
  then show ?thesis
    by (simp add: recommendation_items_def recommendations_array_def js_or_def
        map_throw_trim_strings filter_map comp_def)
qed

lemma recommendation_items_other:
  assumes "\<not> is_string v" and "\<forall>xs. v \<noteq> JArr xs"
  shows "recommendation_items v = Inr []"
  using assms
  by (cases v) (simp_all add: recommendation_items_def recommendations_array_def js_or_def)

lemma recommendation_items_example:
  "recommendation_items (JStr (utf16 ''a, b,'' @ [0x0A] @ utf16 ''c'')) =
     Inr [utf16 ''a'', utf16 ''b'', utf16 ''c'']"
  by (simp add: recommendation_items_string utf16_def trim_def is_space_def)

text \<open>
  C6, as amended. For an array of strings every entry is trimmed and the order is kept
  (blank entries stay, as empty items). A string is split at commas and line feeds, every
  part is trimmed and the empty parts are dropped, so "a, b," followed by a line feed and "c" gives a, b, c. Any
  value that is neither a string nor an array, also an absent one, gives no items.
\<close>

theorem recommendation_normalization_amended:
  "recommendation_items (JArr (map JStr xs)) = Inr (map trim xs)
   \<and> recommendation_items (JStr s) = Inr (filter (\<lambda>r. r \<noteq> []) (map trim (split_list s)))
   \<and> recommendation_items (JStr (utf16 ''a, b,'' @ [0x0A] @ utf16 ''c'')) =
        Inr [utf16 ''a'', utf16 ''b'', utf16 ''c'']
   \<and> (\<not> is_string v \<and> (\<forall>ys. v \<noteq> JArr ys) \<longrightarrow> recommendation_items v = Inr [])"
  using recommendation_items_array recommendation_items_string recommendation_items_example
    recommendation_items_other by blast

theorem recommendation_normalization_amended_witness:
  "recommendation_items (JArr (map JStr [utf16 '' x '', utf16 ''y''])) = Inr [utf16 ''x'', utf16 ''y'']
   \<and> recommendation_items JUndefined = Inr []
   \<and> recommendation_items (JNum (Fin 5)) = Inr []"
  using recommendation_normalization_amended [of "[utf16 '' x '', utf16 ''y'']" "[]" JUndefined]
    recommendation_normalization_amended [of "[]" "[]" "JNum (Fin 5)"]
  by (simp add: utf16_def trim_def is_space_def)

theorem recommendation_normalization_counterexample:
  "recommendation_items (JArr [JStr (utf16 ''a''), JStr (utf16 '' ''), JStr (utf16 ''b'')]) =
     Inr [utf16 ''a'', [], utf16 ''b'']"
  by (simp add: recommendation_items_def recommendations_array_def js_or_def
      utf16_def trim_def is_space_def)

text \<open>
  C3, as amended. The import rejects a payload with the "not an analysis" alert exactly
  when \<^verbatim>\<open>analises\<close> or \<^verbatim>\<open>repositorio_url\<close> is absent or falsy (null, false, 0, the empty
  string). Nothing else is looked at: a payload with status "erro" and both fields truthy
  passes and becomes the current result, and one without \<^verbatim>\<open>analises\<close> is rejected with
  the state otherwise unchanged, so that no display function runs.
\<close>

theorem validation_amended:
  "missing_required (JObj kvs) =
     Inr (\<not> truthy (obj_get kvs (utf16 ''analises''))
          \<or> \<not> truthy (obj_get kvs (utf16 ''repositorio_url'')))
   \<and> (truthy (obj_get kvs (utf16 ''analises'')) \<and> truthy (obj_get kvs (utf16 ''repositorio_url''))
        \<and> obj_get kvs (utf16 ''status'') = JStr (utf16 ''erro'')
        \<longrightarrow> missing_required (JObj kvs) = Inr False
            \<and> currentResults (reader_onload (Inr (JObj kvs)) st) = JObj kvs)
   \<and> (missing_required p = Inr True \<longleftrightarrow>
        reader_onload (Inr p) st = st\<lparr>alerts := alerts st @ [NotAnAnalysis]\<rparr>)
   \<and> (obj_get kvs (utf16 ''analises'') = JUndefined \<longrightarrow>
        reader_onload (Inr (JObj kvs)) st = st\<lparr>alerts := alerts st @ [NotAnAnalysis]\<rparr>)"
proof (intro conjI impI)
  show "missing_required (JObj kvs) =
     Inr (\<not> truthy (obj_get kvs (utf16 ''analises''))
          \<or> \<not> truthy (obj_get kvs (utf16 ''repositorio_url'')))"
    by (rule missing_required_obj)
next
  assume "truthy (obj_get kvs (utf16 ''analises'')) \<and> truthy (obj_get kvs (utf16 ''repositorio_url''))
        \<and> obj_get kvs (utf16 ''status'') = JStr (utf16 ''erro'')"
  then have m: "missing_required (JObj kvs) = Inr False"
    by (simp add: missing_required_obj)
  then show "missing_required (JObj kvs) = Inr False" .
  from m show "currentResults (reader_onload (Inr (JObj kvs)) st) = JObj kvs"
    by (simp add: reader_onload_def split: sum.splits)
next
  show "missing_required p = Inr True \<longleftrightarrow>
        reader_onload (Inr p) st = st\<lparr>alerts := alerts st @ [NotAnAnalysis]\<rparr>"
  proof (cases "missing_required p")
    case (Inl e)
    have "st\<lparr>alerts := alerts st @ [ProcessingError]\<rparr> \<noteq> st\<lparr>alerts := alerts st @ [NotAnAnalysis]\<rparr>"
      by (cases st) simp
    with Inl show ?thesis by (simp add: reader_onload_def)
  next
    case (Inr b)
    show ?thesis
    proof (cases b)
      case True
      with Inr show ?thesis by (simp add: reader_onload_def)
    next
      case False
      have "\<And>x. st\<lparr>currentResults := p, screen := Garbled, alerts := alerts st @ [ProcessingError]\<rparr>
          \<noteq> st\<lparr>alerts := alerts st @ [NotAnAnalysis]\<rparr>"
        by (cases st) simp
      moreover have "\<And>view. st\<lparr>currentResults := p, screen := Report view\<rparr>
          \<noteq> st\<lparr>alerts := alerts st @ [NotAnAnalysis]\<rparr>"
        by (cases st) simp
      ultimately show ?thesis using Inr False
        by (simp add: reader_onload_def split: sum.splits)
    qed
  qed
next
  assume "obj_get kvs (utf16 ''analises'') = JUndefined"
  then show "reader_onload (Inr (JObj kvs)) st = st\<lparr>alerts := alerts st @ [NotAnAnalysis]\<rparr>"
    by (simp add: reader_onload_def missing_required_obj)
qed

theorem validation_amended_witness:
  "truthy (obj_get error_status_payload (utf16 ''analises''))
   \<and> truthy (obj_get error_status_payload (utf16 ''repositorio_url''))
   \<and> obj_get error_status_payload (utf16 ''status'') = JStr (utf16 ''erro'')
   \<and> missing_required (JObj error_status_payload) = Inr False
   \<and> currentResults (reader_onload (Inr (JObj error_status_payload)) initial_state) =
        JObj error_status_payload
   \<and> obj_get [(utf16 ''status'', JStr (utf16 ''erro''))] (utf16 ''analises'') = JUndefined
   \<and> reader_onload (Inr (JObj [(utf16 ''status'', JStr (utf16 ''erro''))])) initial_state =
        initial_state\<lparr>alerts := [NotAnAnalysis]\<rparr>"
  using validation_amended [of error_status_payload initial_state JNull]
    validation_amended [of "[(utf16 ''status'', JStr (utf16 ''erro''))]" initial_state JNull]
  by (simp add: error_status_payload_def obj_get_def initial_state_def)

theorem validation_counterexample:
  "map_of blank_url_payload (utf16 ''analises'') = Some (JObj [])
   \<and> map_of blank_url_payload (utf16 ''repositorio_url'') = Some (JStr [])
   \<and> missing_required (JObj blank_url_payload) = Inr True
   \<and> reader_onload (Inr (JObj blank_url_payload)) initial_state =
        initial_state\<lparr>alerts := [NotAnAnalysis]\<rparr>"
  by (simp add: blank_url_payload_def missing_required_obj obj_get_def reader_onload_def
      initial_state_def)

text \<open>
  C10. A file whose MIME type does not contain "json" and whose name does not end in
  ".json" is rejected with the "select a JSON file" alert. The outcome does not depend on
  the text of the file or on the parser, and the current results and the screen stay as
  they were.
\<close>

theorem non_json_file_rejected:
  assumes "\<not> str_includes (file_type f) (utf16 ''json'')"
    and "\<not> endsWith (file_name f) (utf16 ''.json'')"
  shows "handleFile parse f st = st\<lparr>alerts := alerts st @ [SelectJsonFile]\<rparr>
    \<and> handleFile parse' (f\<lparr>file_text := txt\<rparr>) st = handleFile parse f st
    \<and> currentResults (handleFile parse f st) = currentResults st
    \<and> screen (handleFile parse f st) = screen st"
  using assms by (simp add: handleFile_def)

theorem non_json_file_rejected_witness:
  "\<not> str_includes (file_type text_file) (utf16 ''json'')
   \<and> \<not> endsWith (file_name text_file) (utf16 ''.json'')
   \<and> handleFile (\<lambda>t. Inr empty_payload) text_file initial_state =
        initial_state\<lparr>alerts := [SelectJsonFile]\<rparr>"
proof -
  have a: "\<not> str_includes (file_type text_file) (utf16 ''json'')"
    by (simp add: text_file_def utf16_def)
  have b: "\<not> endsWith (file_name text_file) (utf16 ''.json'')"
    by (simp add: text_file_def utf16_def endsWith_def)
  from non_json_file_rejected [OF a b, of "\<lambda>t. Inr empty_payload" initial_state] a b
  show ?thesis by (simp add: initial_state_def)
qed

lemma security_score_coercions:
  "security_score (JArr [JStr Alto]) = Inr (JStr (utf16 ''C''))
   \<and> security_score (JObj []) = Inr (JStr (utf16 ''A''))
   \<and> security_score (JObj [(utf16 ''toString'', JNum (Fin 1))]) = Inl TypeError"
  by (simp add: security_score_def Alto_def Medio_def utf16_def)

text \<open>
  C4. With nivel_risco a primitive value (a string, a number, a boolean, null, or the
  field absent) the score expression of the security card gives "C" for "Alto", "B" for
  "Medio" (written with an acute e) and "A" for every other value: "Baixo", an
  unrecognised value, an absent field. This is the first thing \<^verbatim>\<open>updateMetricCard\<close>
  writes; it is the score of the card whenever the card is completed, and the card is
  completed whenever the two detail values are primitive as well.
\<close>

theorem security_score_levels:
  assumes "get_prop seguranca (utf16 ''nivel_risco'') = Inr nivel_risco"
    and "is_primitive nivel_risco"
  shows "security_score nivel_risco =
       Inr (if nivel_risco = JStr Alto then JStr (utf16 ''C'')
            else if nivel_risco = JStr Medio then JStr (utf16 ''B'')
            else JStr (utf16 ''A''))
     \<and> (\<forall>card. security_card seguranca = Inr card \<longrightarrow> score card =
           (if nivel_risco = JStr Alto then JStr (utf16 ''C'')
            else if nivel_risco = JStr Medio then JStr (utf16 ''B'')
            else JStr (utf16 ''A'')))
     \<and> (\<forall>v f. get_prop seguranca (utf16 ''vulnerabilidades_encontradas'') = Inr v
             \<and> get_prop seguranca (utf16 ''funcoes_sem_tratamento'') = Inr f
             \<and> is_primitive v \<and> is_primitive f
           \<longrightarrow> (\<exists>card. security_card seguranca = Inr card))"
proof -
  let ?x = "if nivel_risco = JStr Alto then JStr (utf16 ''C'')
            else if nivel_risco = JStr Medio then JStr (utf16 ''B'')
            else JStr (utf16 ''A'')"
  have x: "security_score nivel_risco = Inr ?x"
    using assms(2) by (rule security_score_primitive)
  obtain v where v: "get_prop seguranca (utf16 ''vulnerabilidades_encontradas'') = Inr v"
    using get_prop_total [OF assms(1)] by blast
  obtain f where f: "get_prop seguranca (utf16 ''funcoes_sem_tratamento'') = Inr f"
    using get_prop_total [OF assms(1)] by blast
  have c: "security_card seguranca =
      updateMetricCard ?x ?x (js_or v (JNum (Fin 0))) (js_or f (JNum (Fin 0)))"
    by (simp add: security_card_def assms(1) v f x)
  have s: "\<forall>card. security_card seguranca = Inr card \<longrightarrow> score card = ?x"
    unfolding c using updateMetricCard_score by blast
  have p: "is_primitive ?x" by simp
  have e: "\<forall>v' f'. get_prop seguranca (utf16 ''vulnerabilidades_encontradas'') = Inr v'
             \<and> get_prop seguranca (utf16 ''funcoes_sem_tratamento'') = Inr f'
             \<and> is_primitive v' \<and> is_primitive f'
           \<longrightarrow> (\<exists>card. security_card seguranca = Inr card)"
  proof (intro allI impI)
    fix v' f'
    assume a: "get_prop seguranca (utf16 ''vulnerabilidades_encontradas'') = Inr v'
             \<and> get_prop seguranca (utf16 ''funcoes_sem_tratamento'') = Inr f'
             \<and> is_primitive v' \<and> is_primitive f'"
    then have "v' = v" "f' = f" using v f by simp_all
    then have "is_primitive (js_or v (JNum (Fin 0)))" "is_primitive (js_or f (JNum (Fin 0)))"
      using a js_or_primitive by simp_all
    from updateMetricCard_primitive [OF p this] show "\<exists>card. security_card seguranca = Inr card"
      unfolding c by blast
  qed
  from x s e show ?thesis by (intro conjI)
qed

theorem security_score_levels_witness:
  "security_score (JStr Alto) = Inr (JStr (utf16 ''C''))
   \<and> security_score (JStr Medio) = Inr (JStr (utf16 ''B''))
   \<and> security_score (JStr Baixo) = Inr (JStr (utf16 ''A''))
   \<and> security_score (JStr (utf16 ''alto'')) = Inr (JStr (utf16 ''A''))
   \<and> security_score JUndefined = Inr (JStr (utf16 ''A''))
   \<and> (\<exists>card. security_card (JObj [(utf16 ''nivel_risco'', JStr Alto)]) = Inr card
         \<and> score card = JStr (utf16 ''C''))
   \<and> (\<exists>card. security_card (JObj []) = Inr card \<and> score card = JStr (utf16 ''A''))"
  using security_score_levels [of "JObj [(utf16 ''nivel_risco'', JStr Alto)]" "JStr Alto"]
    security_score_levels [of "JObj [(utf16 ''nivel_risco'', JStr Medio)]" "JStr Medio"]
    security_score_levels [of "JObj [(utf16 ''nivel_risco'', JStr Baixo)]" "JStr Baixo"]
    security_score_levels [of "JObj [(utf16 ''nivel_risco'', JStr (utf16 ''alto''))]"
      "JStr (utf16 ''alto'')"]
    security_score_levels [of "JObj []" JUndefined]
  by (simp add: obj_get_def Alto_def Medio_def Baixo_def utf16_def) blast

text \<open>
  C5. \<open>getQualityClass\<close> is defined on every value. On a number it answers by the
  thresholds 80, 60, 40 and 20 (excellent, good, average, poor, else critical); on a
  string it answers excellent for "A+", good for "B", poor for "C" and average for
  every other string, so the security letter "A" is average and not excellent.
\<close>

theorem getQualityClass_total:
  "getQualityClass (JNum n) =
     (if num_ge n 80 then Excellent else if num_ge n 60 then Good
      else if num_ge n 40 then Average else if num_ge n 20 then Poor else Critical)
   \<and> getQualityClass (JNum (Fin i)) =
     (if 80 \<le> i then Excellent else if 60 \<le> i then Good
      else if 40 \<le> i then Average else if 20 \<le> i then Poor else Critical)
   \<and> getQualityClass (JStr s) =
     (if s = utf16 ''A+'' then Excellent else if s = utf16 ''B'' then Good
      else if s = utf16 ''C'' then Poor else Average)
   \<and> getQualityClass (JStr (utf16 ''A'')) = Average
   \<and> getQualityClass (JStr (utf16 ''A'')) \<noteq> Excellent"
  by (simp add: utf16_def)

subsection \<open>The codec reads back what it writes: white space\<close>

lemma skip_ws_replicate: "skip_ws (replicate n 0x20 @ s) = skip_ws s"
  by (induction n) (simp_all add: skip_ws_def is_json_ws_def)

lemma skip_ws_nl [simp]: "skip_ws (nl d @ s) = skip_ws s"
  using skip_ws_replicate [of "2 * d" s] by (simp add: nl_def skip_ws_def is_json_ws_def)

lemma skip_ws_space [simp]: "skip_ws (0x20 # s) = skip_ws s"
  by (simp add: skip_ws_def is_json_ws_def)

lemma skip_ws_Cons: "\<not> is_json_ws c \<Longrightarrow> skip_ws (c # s) = c # s"
  by (simp add: skip_ws_def)

subsection \<open>Decimal digits\<close>

lemma below_ten: "k < 10 \<Longrightarrow> k = 0 \<or> k = 1 \<or> k = 2 \<or> k = 3 \<or> k = 4 \<or> k = 5 \<or> k = 6 \<or> k = 7 \<or> k = 8 \<or> k = (9::nat)"
  by arith

lemma digit_unit:
  assumes "k < 10"
  shows "is_digit (48 + of_nat k)" and "unat (48 + of_nat k :: 16 word) - 48 = k"
    and "(48 + of_nat k :: 16 word) = 0x30 \<longleftrightarrow> k = 0"
  using below_ten [OF assms] by (auto simp add: is_digit_def)

lemma digits_not_Nil [simp]: "digits n \<noteq> []"
  by (subst digits.simps) simp

lemma digits_all: "list_all is_digit (digits n)"
proof (induction n rule: digits.induct)
  case (1 n)
  show ?case
  proof (cases "n < 10")
    case True
    then show ?thesis by (subst digits.simps) (simp add: digit_unit(1))
  next
    case False
    then have "list_all is_digit (digits (n div 10))" using 1 by simp
    moreover have "is_digit (48 + of_nat (n mod 10))" by (rule digit_unit(1)) simp
    ultimately show ?thesis using False by (subst digits.simps) simp
  qed
qed

lemma digits_value_snoc: "digits_value (s @ [c]) = 10 * digits_value s + (unat c - 48)"
  by (simp add: digits_value_def)

lemma digits_value_digits: "digits_value (digits n) = n"
proof (induction n rule: digits.induct)
  case (1 n)
  show ?case
  proof (cases "n < 10")
    case True
    then show ?thesis
      by (subst digits.simps) (simp add: digits_value_def digit_unit(2))
  next
    case False
    then have "digits_value (digits (n div 10)) = n div 10" using 1 by simp
    moreover have "unat (48 + of_nat (n mod 10) :: 16 word) - 48 = n mod 10"
      by (rule digit_unit(2)) simp
    ultimately show ?thesis using False
      by (subst digits.simps) (simp add: digits_value_snoc)
  qed
qed

lemma hd_digits_zero: "hd (digits n) = 0x30 \<longleftrightarrow> n = 0"
proof (induction n rule: digits.induct)
  case (1 n)
  show ?case
  proof (cases "n < 10")
    case True
    have "digits n = [48 + of_nat n]" using True by (subst digits.simps) simp
    then show ?thesis using digit_unit(3) [OF True] by (simp only: list.sel)
  next
    case False
    then have "hd (digits (n div 10)) = 0x30 \<longleftrightarrow> n div 10 = 0" using 1 by simp
    moreover have "n div 10 \<noteq> 0" using False by simp
    ultimately show ?thesis using False by (subst digits.simps) simp
  qed
qed

lemma length_digits_one: "1 < length (digits n) \<Longrightarrow> n \<noteq> 0"
  by (subst (asm) digits.simps) (auto split: if_splits)

lemma delimited_no_digit: "delimited r \<Longrightarrow> r = [] \<or> \<not> is_digit (hd r)"
  by (auto simp add: delimited_def is_digit_def)

lemma takeWhile_digits:
  assumes "r = [] \<or> \<not> is_digit (hd r)"
  shows "takeWhile is_digit (digits n @ r) = digits n"
    and "dropWhile is_digit (digits n @ r) = r"
proof -
  have a: "\<forall>c \<in> set (digits n). is_digit c" using digits_all [of n] by (simp add: list_all_iff)
  have t: "takeWhile is_digit r = []" using assms by (cases r) auto
  have d: "dropWhile is_digit r = r" using assms by (cases r) auto
  show "takeWhile is_digit (digits n @ r) = digits n" using a t by (simp add: takeWhile_append2)
  show "dropWhile is_digit (digits n @ r) = r" using a d by (simp add: dropWhile_append2)
qed

lemma number_frac_delimited: "delimited r \<Longrightarrow> number_frac r = Some ([], r)"
  by (cases r) (auto simp add: number_frac_def delimited_def)

lemma number_exp_delimited: "delimited r \<Longrightarrow> number_exp r = Some (0, r)"
  by (cases r) (auto simp add: number_exp_def delimited_def)

lemma number_of_exact:
  assumes "m \<le> 2 ^ 53"
  shows "number_of neg m 0 = Some (Fin (if neg then - int m else int m))"
proof -
  have "(2::nat) ^ 53 < 2 ^ 1024 - 2 ^ 970" by simp
  then have "\<not> (2 ^ 1024 - 2 ^ 970 \<le> m)" using assms by linarith
  then show ?thesis using assms by (simp add: number_of_def Let_def)
qed

lemma parse_number_digits:
  assumes "delimited r" and "m \<le> 2 ^ 53"
  shows "parse_number (digits m @ r) = Got (JNum (Fin (int m))) r"
proof -
  have nd: "r = [] \<or> \<not> is_digit (hd r)" using assms(1) by (rule delimited_no_digit)
  have h: "hd (digits m @ r) \<noteq> 0x2D"
    using digits_all [of m] by (cases "digits m") (auto simp add: is_digit_def)
  have lead: "\<not> (1 < length (digits m) \<and> hd (digits m) = 0x30)"
    using length_digits_one [of m] hd_digits_zero [of m] by auto
  show ?thesis
    using h lead
    by (simp add: parse_number_def Let_def takeWhile_digits [OF nd]
        number_frac_delimited [OF assms(1)] number_exp_delimited [OF assms(1)]
        digits_value_digits number_of_exact [OF assms(2)])
qed

lemma parse_number_minus_digits:
  assumes "delimited r" and "m \<le> 2 ^ 53"
  shows "parse_number (0x2D # digits m @ r) = Got (JNum (Fin (- int m))) r"
proof -
  have nd: "r = [] \<or> \<not> is_digit (hd r)" using assms(1) by (rule delimited_no_digit)
  have lead: "\<not> (1 < length (digits m) \<and> hd (digits m) = 0x30)"
    using length_digits_one [of m] hd_digits_zero [of m] by auto
  show ?thesis
    using lead
    by (simp add: parse_number_def Let_def takeWhile_digits [OF nd]
        number_frac_delimited [OF assms(1)] number_exp_delimited [OF assms(1)]
        digits_value_digits number_of_exact [OF assms(2)])
qed

lemma magnitude_to_string_small: "m \<le> 2 ^ 53 \<Longrightarrow> magnitude_to_string m = digits m"
  by (simp add: magnitude_to_string_def)

lemma parse_number_round_trip:
  assumes "delimited r" and "\<bar>i\<bar> \<le> 2 ^ 53"
  shows "parse_number (num_to_string (Fin i) @ r) = Got (JNum (Fin i)) r"
proof (cases "i < 0")
  case True
  have m: "nat (- i) \<le> 2 ^ 53" using assms(2) True by (simp add: nat_le_iff)
  from parse_number_minus_digits [OF assms(1) m] True show ?thesis
    by (simp add: utf16_def magnitude_to_string_small [OF m])
next
  case False
  have m: "nat i \<le> 2 ^ 53" using assms(2) False by (simp add: nat_le_iff)
  from parse_number_digits [OF assms(1) m] False show ?thesis
    by (simp add: magnitude_to_string_small [OF m])
qed

subsection \<open>Quoted strings\<close>

lemma unat_offset:
  assumes "k < 16"
  shows "unat (0x30 + of_nat k :: 16 word) = 48 + k" and "unat (0x57 + of_nat k :: 16 word) = 87 + k"
proof -
  have "(0x30 :: 16 word) + of_nat k = of_nat (48 + k)" by simp
  then show "unat (0x30 + of_nat k :: 16 word) = 48 + k"
    using assms by (simp only: unat_of_nat) simp
  have "(0x57 :: 16 word) + of_nat k = of_nat (87 + k)" by simp
  then show "unat (0x57 + of_nat k :: 16 word) = 87 + k"
    using assms by (simp only: unat_of_nat) simp
qed

lemma hex_value_hex_digit: "k < 16 \<Longrightarrow> hex_value (hex_digit k) = Some k"
  by (simp add: hex_value_def hex_digit_def is_digit_def word_le_nat_alt unat_offset)

lemma hex_recompose:
  "((n div 4096 * 16 + n div 256 mod 16) * 16 + n div 16 mod 16) * 16 + n mod 16 = (n::nat)"
proof -
  have a: "n div 4096 = n div 256 div 16" by (simp add: div_mult2_eq)
  have b: "n div 256 = n div 16 div 16" by (simp add: div_mult2_eq)
  have "n div 4096 * 16 + n div 256 mod 16 = n div 256"
    by (simp only: a div_mult_mod_eq)
  moreover have "n div 256 * 16 + n div 16 mod 16 = n div 16"
    by (simp only: b div_mult_mod_eq)
  ultimately show ?thesis by (simp only: div_mult_mod_eq)
qed

lemma unat_16_bound: "unat (c :: 16 word) < 65536"
  using unsigned_less [of c, where ?'a = nat] by simp

lemma hex4_unicode_escape:
  "hex4 (drop 2 (unicode_escape c)) = Some c"
proof -
  have b: "unat c < 65536" by (rule unat_16_bound)
  have 1: "unat c div 4096 < 16" using b by simp
  have r: "word_of_nat (((unat c div 4096 * 16 + unat c div 256 mod 16) * 16
             + unat c div 16 mod 16) * 16 + unat c mod 16) = c"
    by (simp only: hex_recompose) simp
  show ?thesis
    using r by (simp add: unicode_escape_def hex_value_hex_digit 1)
qed

declare string_body.simps [simp del]

lemma string_body_closing [simp]: "string_body (0x22 # r) = Some ([], r)"
  by (subst string_body.simps) simp

lemma string_body_escape_u:
  "hex4 [a, b, d, e] = Some u \<Longrightarrow>
     string_body (0x5C # 0x75 # a # b # d # e # t) = and_then u (string_body t)"
  by (subst string_body.simps) simp

lemma string_body_escape:
  "simple_escape e = Some u \<Longrightarrow> e \<noteq> 0x75 \<Longrightarrow>
     string_body (0x5C # e # t) = and_then u (string_body t)"
  by (subst string_body.simps) simp

lemma string_body_verbatim:
  "c \<noteq> 0x22 \<Longrightarrow> c \<noteq> 0x5C \<Longrightarrow> \<not> c < 0x20 \<Longrightarrow>
     string_body (c # t) = and_then c (string_body t)"
  by (subst string_body.simps) (simp only: if_False)

lemma string_body_unicode_escape:
  "string_body (unicode_escape c @ t) = and_then c (string_body t)"
proof -
  obtain a b d e where u: "unicode_escape c = [0x5C, 0x75, a, b, d, e]"
    by (simp add: unicode_escape_def)
  have "hex4 [a, b, d, e] = Some c" using hex4_unicode_escape [of c] u by simp
  then show ?thesis by (simp add: u string_body_escape_u)
qed

lemma string_body_quote_unit:
  "string_body (quote_unit c @ t) = and_then c (string_body t)"
proof -
  consider "c = 0x08" | "c = 0x09" | "c = 0x0A" | "c = 0x0C" | "c = 0x0D" | "c = 0x22"
    | "c = 0x5C"
    | "c \<noteq> 0x08" "c \<noteq> 0x09" "c \<noteq> 0x0A" "c \<noteq> 0x0C" "c \<noteq> 0x0D" "c \<noteq> 0x22" "c \<noteq> 0x5C"
    by blast
  then show ?thesis
  proof cases
    case 1
    then show ?thesis by (simp add: quote_unit_def string_body_escape simple_escape_def)
  next
    case 2
    then show ?thesis by (simp add: quote_unit_def string_body_escape simple_escape_def)
  next
    case 3
    then show ?thesis by (simp add: quote_unit_def string_body_escape simple_escape_def)
  next
    case 4
    then show ?thesis by (simp add: quote_unit_def string_body_escape simple_escape_def)
  next
    case 5
    then show ?thesis by (simp add: quote_unit_def string_body_escape simple_escape_def)
  next
    case 6
    then show ?thesis by (simp add: quote_unit_def string_body_escape simple_escape_def)
  next
    case 7
    then show ?thesis by (simp add: quote_unit_def string_body_escape simple_escape_def)
  next
    case 8
    show ?thesis
    proof (cases "c < 0x20")
      case True
      then show ?thesis using 8 by (simp add: quote_unit_def string_body_unicode_escape)
    next
      case False
      then show ?thesis using 8 by (simp add: quote_unit_def string_body_verbatim)
    qed
  qed
qed

lemma surrogate_verbatim:
  assumes "is_high_surrogate c \<or> is_low_surrogate c"
  shows "c \<noteq> 0x22" and "c \<noteq> 0x5C" and "\<not> c < 0x20"
  using assms
  by (auto simp add: is_high_surrogate_def is_low_surrogate_def word_le_nat_alt word_less_nat_alt)

lemma and_then_Some [simp]: "and_then c (Some (s, r)) = Some (c # s, r)"
  by (simp add: and_then_def)

lemma surrogates_disjoint: "is_low_surrogate c \<Longrightarrow> \<not> is_high_surrogate c"
  by (auto simp add: is_high_surrogate_def is_low_surrogate_def word_le_nat_alt)

lemma string_body_quote_units:
  "string_body t = Some (s', r) \<Longrightarrow> string_body (quote_units s @ t) = Some (s @ s', r)"
proof (induction s rule: quote_units.induct)
  case 1
  then show ?case by simp
next
  case (2 c)
  show ?case
  proof (cases "is_high_surrogate c \<or> is_low_surrogate c")
    case True
    then show ?thesis using 2 by (simp add: string_body_unicode_escape)
  next
    case False
    then show ?thesis using 2 by (simp add: string_body_quote_unit)
  qed
next
  case (3 c d cs)
  show ?case
  proof (cases "is_high_surrogate c \<and> is_low_surrogate d")
    case True
    have c: "c \<noteq> 0x22" "c \<noteq> 0x5C" "\<not> c < 0x20"
      using True surrogate_verbatim [of c] by blast+
    have d: "d \<noteq> 0x22" "d \<noteq> 0x5C" "\<not> d < 0x20"
      using True surrogate_verbatim [of d] by blast+
    have q: "quote_units (c # d # cs) = c # d # quote_units cs" using True by simp
    have ih: "string_body (quote_units cs @ t) = Some (cs @ s', r)"
      using 3(1) [OF True 3(4)] .
    show ?thesis
      by (simp only: q append_Cons string_body_verbatim [OF c] string_body_verbatim [OF d]
          ih and_then_Some)
  next
    case False
    note nopair = this
    show ?thesis
    proof (cases "is_high_surrogate c \<or> is_low_surrogate c")
      case True
      have q: "quote_units (c # d # cs) = unicode_escape c @ quote_units (d # cs)"
        using nopair True by (simp only: quote_units.simps if_False if_True)
      have ih: "string_body (quote_units (d # cs) @ t) = Some ((d # cs) @ s', r)"
        using 3(2) [OF nopair True 3(4)] .
      show ?thesis
        by (simp only: q append_assoc string_body_unicode_escape ih and_then_Some append_Cons)
    next
      case False
      have q: "quote_units (c # d # cs) = quote_unit c @ quote_units (d # cs)"
        using nopair False by (simp only: quote_units.simps if_False if_True)
      have ih: "string_body (quote_units (d # cs) @ t) = Some ((d # cs) @ s', r)"
        using 3(3) [OF nopair False 3(4)] .
      show ?thesis
        by (simp only: q append_assoc string_body_quote_unit ih and_then_Some append_Cons)
    qed
  qed
qed

lemma string_body_quote:
  "string_body (quote_units s @ 0x22 # r) = Some (s, r)"
  using string_body_quote_units [of "0x22 # r" "[]" r s] by simp

subsection \<open>Property order\<close>

lemma ordered_keys_butlast: "ordered_keys (ks @ [k]) \<Longrightarrow> ordered_keys ks"
proof (induction ks rule: ordered_keys.induct)
  case 1
  then show ?case by simp
next
  case (2 k')
  then show ?case by simp
next
  case (3 a b ks)
  then show ?case by simp
qed

lemma ordered_keys_last_index:
  "ordered_keys (ks @ [k]) \<Longrightarrow> is_array_index k \<Longrightarrow>
     \<forall>k' \<in> set ks. is_array_index k' \<and> digits_value k' < digits_value k"
proof (induction ks rule: ordered_keys.induct)
  case 1
  then show ?case by simp
next
  case (2 a)
  then show ?case by simp
next
  case (3 a b ks)
  then have ih: "\<forall>k' \<in> set (b # ks). is_array_index k' \<and> digits_value k' < digits_value k"
    by simp
  then have "is_array_index b" "digits_value b < digits_value k" by simp_all
  moreover from 3(2) have "is_array_index b \<longrightarrow> is_array_index a \<and> digits_value a < digits_value b"
    by simp
  ultimately have "is_array_index a \<and> digits_value a < digits_value k" by auto
  with ih show ?case by simp
qed

lemma insert_index_last:
  "\<forall>k' \<in> set (map fst kvs). is_array_index k' \<and> digits_value k' < digits_value k \<Longrightarrow>
     insert_index k v kvs = kvs @ [(k, v)]"
  by (induction kvs) auto

lemma obj_put_last:
  assumes "js_ordered (kvs @ [kv])"
  shows "obj_put kvs kv = kvs @ [kv]"
proof -
  have new: "fst kv \<notin> set (map fst kvs)" using assms by (simp add: js_ordered_def)
  have ord: "ordered_keys (map fst kvs @ [fst kv])" using assms by (simp add: js_ordered_def)
  show ?thesis
  proof (cases "is_array_index (fst kv)")
    case True
    from ordered_keys_last_index [OF ord True]
    have "insert_index (fst kv) (snd kv) kvs = kvs @ [(fst kv, snd kv)]"
      by (rule insert_index_last)
    then show ?thesis using new True by (simp add: obj_put_def)
  next
    case False
    then show ?thesis using new by (simp add: obj_put_def)
  qed
qed

lemma js_ordered_butlast: "js_ordered (kvs @ [kv]) \<Longrightarrow> js_ordered kvs"
  using ordered_keys_butlast [of "map fst kvs" "fst kv"] by (simp add: js_ordered_def)

lemma foldl_obj_put: "js_ordered kvs \<Longrightarrow> foldl obj_put [] kvs = kvs"
proof (induction kvs rule: rev_induct)
  case Nil
  then show ?case by simp
next
  case (snoc kv kvs)
  then have "foldl obj_put [] kvs = kvs" using js_ordered_butlast by blast
  then show ?case using obj_put_last [OF snoc.prems] by simp
qed

subsection \<open>Values\<close>

declare parse_value.simps [simp del]

lemma skip_ws_start: "value_start c \<Longrightarrow> skip_ws (c # t) = c # t"
  by (simp add: value_start_def skip_ws_Cons)

lemma length_nl [simp]: "length (nl d) = Suc (2 * d)"
  by (simp add: nl_def)

lemma delimited_simps [simp]:
  "delimited []" "delimited (0x2C # t)" "delimited (nl d @ t)"
  by (simp_all add: delimited_def nl_def)

lemma digit_is_plain:
  assumes "is_digit c"
  shows "\<not> is_json_ws c" "c \<noteq> 0x5D" "c \<noteq> 0x7D" "c \<noteq> 0x7B" "c \<noteq> 0x5B" "c \<noteq> 0x22"
    "c \<noteq> 0x74" "c \<noteq> 0x66" "c \<noteq> 0x6E" "c \<noteq> 0x2D"
  using assms by (auto simp add: is_digit_def is_json_ws_def)

lemma digits_start: "\<exists>c t. digits n = c # t \<and> is_digit c"
proof -
  obtain c t where ct: "digits n = c # t" using digits_not_Nil by (cases "digits n") auto
  then have "is_digit c" using digits_all [of n] by simp
  then show ?thesis using ct by blast
qed

lemma large_to_string_start: "\<exists>c t. large_to_string m = c # t \<and> is_digit c"
proof (cases "shortest_digits m")
  case None
  then show ?thesis using digits_start [of m] by (simp add: large_to_string_def)
next
  case (Some p)
  obtain k n s where p: "p = (k, n, s)" by (cases p)
  obtain c t where ct: "digits s = c # t" and c: "is_digit c" using digits_start by blast
  show ?thesis using Some p ct c by (simp add: large_to_string_def)
qed

lemma magnitude_to_string_start: "\<exists>c t. magnitude_to_string m = c # t \<and> is_digit c"
  using digits_start [of m] large_to_string_start [of m] by (simp add: magnitude_to_string_def)

lemma number_start:
  "\<exists>c t. num_to_string (Fin i) = c # t \<and> (c = 0x2D \<or> is_digit c)"
proof (cases "i < 0")
  case True
  then show ?thesis by (simp add: utf16_def)
next
  case False
  obtain c t where "magnitude_to_string (nat i) = c # t" "is_digit c"
    using magnitude_to_string_start by blast
  then show ?thesis using False by simp
qed

lemma parse_value_number:
  assumes "c = 0x2D \<or> is_digit c"
  shows "parse_value (Suc n) (c # t) = parse_number (c # t)"
proof (cases "c = 0x2D")
  case True
  then show ?thesis by (subst parse_value.simps) (simp add: is_digit_def)
next
  case False
  then have d: "is_digit c" using assms by simp
  show ?thesis using d digit_is_plain [OF d] by (subst parse_value.simps) simp
qed

lemma parse_num:
  assumes "delimited r" and "\<bar>i\<bar> \<le> 2 ^ 53"
  shows "parse_value (Suc n) (num_to_string (Fin i) @ r) = Got (JNum (Fin i)) r"
proof -
  obtain c t where ct: "num_to_string (Fin i) = c # t" and c: "c = 0x2D \<or> is_digit c"
    using number_start by blast
  have "parse_value (Suc n) (num_to_string (Fin i) @ r) = parse_number (num_to_string (Fin i) @ r)"
    unfolding ct using parse_value_number [OF c] by simp
  then show ?thesis using parse_number_round_trip [OF assms] by simp
qed

lemma parse_null: "parse_value (Suc n) (utf16 ''null'' @ r) = Got JNull r"
  by (subst parse_value.simps) (simp add: utf16_def literal_def)

lemma parse_true: "parse_value (Suc n) (utf16 ''true'' @ r) = Got (JBool True) r"
  by (subst parse_value.simps) (simp add: utf16_def literal_def)

lemma parse_false: "parse_value (Suc n) (utf16 ''false'' @ r) = Got (JBool False) r"
  by (subst parse_value.simps) (simp add: utf16_def literal_def)

lemma parse_string: "parse_value (Suc n) (quote s @ r) = Got (JStr s) r"
  by (subst parse_value.simps) (simp add: quote_def string_body_quote)

lemma parse_empty_array: "parse_value (Suc n) (utf16 ''[]'' @ r) = Got (JArr []) r"
  by (subst parse_value.simps) (simp add: utf16_def skip_ws_Cons is_json_ws_def)

lemma parse_empty_object: "parse_value (Suc n) (utf16 ''{}'' @ r) = Got (JObj []) r"
  by (subst parse_value.simps) (simp add: utf16_def skip_ws_Cons is_json_ws_def)

lemma parse_array_open:
  assumes "value_start c"
  shows "parse_value (Suc n) (0x5B # nl d @ c # t) =
     (case parse_items n (c # t) of
        Bad \<Rightarrow> Bad | Beyond \<Rightarrow> Beyond | Got vs r \<Rightarrow> Got (JArr vs) r)"
  using assms
  by (subst parse_value.simps) (simp add: skip_ws_start, simp add: value_start_def)

lemma parse_object_open:
  assumes "value_start c"
  shows "parse_value (Suc n) (0x7B # nl d @ c # t) =
     (case parse_members n (c # t) of
        Bad \<Rightarrow> Bad | Beyond \<Rightarrow> Beyond | Got kvs r \<Rightarrow> Got (JObj (foldl obj_put [] kvs)) r)"
  using assms
  by (subst parse_value.simps) (simp add: skip_ws_start, simp add: value_start_def)

lemma ser_start: "\<exists>c t. ser d v = c # t \<and> value_start c"
proof (cases v)
  case (JNum n)
  show ?thesis
  proof (cases n)
    case (Fin i)
    obtain c t where ct: "num_to_string (Fin i) = c # t" and c: "c = 0x2D \<or> is_digit c"
      using number_start by blast
    have "value_start c" using c digit_is_plain [of c]
      by (auto simp add: value_start_def is_json_ws_def)
    then show ?thesis using JNum Fin ct by simp
  qed (simp_all add: JNum utf16_def value_start_def is_json_ws_def)
qed (simp_all add: utf16_def value_start_def is_json_ws_def quote_def Let_def)

lemma ser_items_start: "xs \<noteq> [] \<Longrightarrow> \<exists>c t. ser_items d xs = c # t \<and> value_start c"
proof (cases xs)
  case Nil
  then show "xs \<noteq> [] \<Longrightarrow> ?thesis" by simp
next
  case (Cons x ys)
  obtain c t where "ser d x = c # t" "value_start c" using ser_start by blast
  then show ?thesis using Cons by simp
qed

lemma ser_members_start:
  "json_members kvs \<Longrightarrow> kvs \<noteq> [] \<Longrightarrow> \<exists>t. ser_members d kvs = 0x22 # t"
proof (cases kvs)
  case Nil
  then show "kvs \<noteq> [] \<Longrightarrow> ?thesis" by simp
next
  case (Cons kv rest)
  assume "json_members kvs"
  then have "snd kv \<noteq> JUndefined" using Cons by (cases kv) auto
  then show ?thesis using Cons by (cases kv) (simp add: Let_def quote_def)
qed

lemma value_start_quote [simp]: "value_start 0x22"
  by (simp add: value_start_def is_json_ws_def)

lemma ser_not_Nil [simp]: "ser d v \<noteq> []"
  using ser_start [of d v] by auto

declare parse_items.simps [simp del] parse_members.simps [simp del]

lemma parse_items_last:
  assumes "parse_value n s = Got v (nl d' @ 0x5D # r)"
  shows "parse_items (Suc n) s = Got [v] r"
  by (subst parse_items.simps) (simp add: assms skip_ws_Cons is_json_ws_def)

lemma parse_items_more:
  assumes "parse_value n s = Got v (0x2C # nl d @ c # t)" and "value_start c"
    and "parse_items n (c # t) = Got vs r"
  shows "parse_items (Suc n) s = Got (v # vs) r"
  by (subst parse_items.simps)
     (simp add: assms skip_ws_Cons is_json_ws_def skip_ws_start)

lemma parse_members_last:
  assumes "parse_value n s = Got v (nl d' @ 0x7D # r)" and "value_start c" and "s = c # t"
  shows "parse_members (Suc n) (quote k @ [0x3A, 0x20] @ s) = Got [(k, v)] r"
  using assms(1)
  by (subst parse_members.simps)
     (simp add: quote_def string_body_quote skip_ws_Cons is_json_ws_def assms(3)
        skip_ws_start [OF assms(2)])

lemma parse_members_more:
  assumes "parse_value n s = Got v (0x2C # nl d @ 0x22 # u)" and "value_start c" and "s = c # t"
    and "parse_members n (0x22 # u) = Got kvs r"
  shows "parse_members (Suc n) (quote k @ [0x3A, 0x20] @ s) = Got ((k, v) # kvs) r"
  using assms(1) assms(4)
  by (subst parse_members.simps)
     (simp add: quote_def string_body_quote skip_ws_Cons is_json_ws_def assms(3)
        skip_ws_start [OF assms(2)])

lemma ser_members_Nil: "json_members kvs \<Longrightarrow> ser_members d kvs = [] \<longleftrightarrow> kvs = []"
  using ser_members_start [of kvs d] by (cases kvs) auto

lemma ser_items_Nil: "ser_items d xs = [] \<longleftrightarrow> xs = []"
  by (cases xs) simp_all

lemma ser_parse:
  "json_value v \<Longrightarrow> delimited r \<Longrightarrow> length (ser d v) \<le> n \<Longrightarrow>
     parse_value n (ser d v @ r) = Got v r"
  and "json_items xs \<Longrightarrow> xs \<noteq> [] \<Longrightarrow> length (ser_items d xs) < n \<Longrightarrow>
     parse_items n (ser_items d xs @ nl d' @ 0x5D # r) = Got xs r"
  and "json_members kvs \<Longrightarrow> kvs \<noteq> [] \<Longrightarrow> length (ser_members d kvs) < n \<Longrightarrow>
     parse_members n (ser_members d kvs @ nl d' @ 0x7D # r) = Got kvs r"
proof (induction d v and d xs and d kvs arbitrary: n r and n r d' and n r d'
    rule: ser_ser_items_ser_members.induct)
  case (1 d)
  then show ?case by simp
next
  case (2 d)
  then obtain m where "n = Suc m" by (cases n) (simp_all add: utf16_def)
  then show ?case by (simp add: parse_null)
next
  case (3 d b)
  then obtain m where "n = Suc m" by (cases n) (simp_all add: utf16_def split: if_splits)
  then show ?case by (simp add: parse_true parse_false)
next
  case (4 d x)
  then obtain i where i: "x = Fin i" "\<bar>i\<bar> \<le> 2 ^ 53" by (cases x) simp_all
  from 4(3) ser_not_Nil [of d "JNum x"] obtain m where "n = Suc m" by (cases n) auto
  then show ?case using i parse_num [OF 4(2) i(2)] by simp
next
  case (5 d s)
  then obtain m where "n = Suc m" by (cases n) (simp_all add: quote_def)
  then show ?case by (simp add: parse_string)
next
  case (6 d xs)
  show ?case
  proof (cases "xs = []")
    case True
    with 6(4) obtain m where "n = Suc m" by (cases n) (simp_all add: utf16_def)
    then show ?thesis using True by (simp add: parse_empty_array)
  next
    case False
    from 6(4) False obtain m where m: "n = Suc m" by (cases n) simp_all
    obtain c t where ct: "ser_items (Suc d) xs = c # t" and c: "value_start c"
      using ser_items_start [OF False] by blast
    have len: "length (ser_items (Suc d) xs) < m" using 6(4) False m by simp
    have items: "json_items xs" using 6(2) by simp
    have "parse_items m (ser_items (Suc d) xs @ nl d @ 0x5D # r) = Got xs r"
      using 6(1) [OF False items False len] .
    then have "parse_items m (c # t @ nl d @ 0x5D # r) = Got xs r" using ct by simp
    then have "parse_value (Suc m) (0x5B # nl (Suc d) @ c # t @ nl d @ 0x5D # r) = Got (JArr xs) r"
      by (simp add: parse_array_open [OF c])
    then show ?thesis using False m ct by simp
  qed
next
  case (7 d kvs)
  have mem: "json_members kvs" and ord: "js_ordered kvs" using 7(2) by simp_all
  show ?case
  proof (cases "kvs = []")
    case True
    with 7(4) obtain m where "n = Suc m" by (cases n) (simp_all add: utf16_def)
    then show ?thesis using True by (simp add: parse_empty_object)
  next
    case False
    then have body: "ser_members (Suc d) kvs \<noteq> []" using ser_members_Nil [OF mem] by simp
    from 7(4) body obtain m where m: "n = Suc m" by (cases n) (simp_all add: Let_def)
    obtain t where ct: "ser_members (Suc d) kvs = 0x22 # t"
      using ser_members_start [OF mem False] by blast
    have len: "length (ser_members (Suc d) kvs) < m" using 7(4) body m by (simp add: Let_def)
    have "parse_members m (ser_members (Suc d) kvs @ nl d @ 0x7D # r) = Got kvs r"
      using 7(1) [OF mem False len] .
    then have "parse_members m (0x22 # t @ nl d @ 0x7D # r) = Got kvs r" using ct by simp
    then have "parse_value (Suc m) (0x7B # nl (Suc d) @ 0x22 # t @ nl d @ 0x7D # r) =
        Got (JObj (foldl obj_put [] kvs)) r"
      by (simp add: parse_object_open [OF value_start_quote])
    then show ?thesis using body m ct foldl_obj_put [OF ord] by (simp add: Let_def)
  qed
next
  case (8 d)
  then show ?case by simp
next
  case (9 d x xs)
  have x: "json_value x" and xs: "json_items xs" using 9(3) by simp_all
  from 9(5) obtain m where m: "n = Suc m" by (cases n) simp_all
  have lx: "length (ser d x) \<le> m" using 9(5) m by simp
  show ?case
  proof (cases "xs = []")
    case True
    have "parse_value m (ser d x @ nl d' @ 0x5D # r) = Got x (nl d' @ 0x5D # r)"
      using 9(1) [OF x _ lx] by simp
    from parse_items_last [OF this] show ?thesis using True m by simp
  next
    case False
    obtain c t where ct: "ser_items d xs = c # t" and c: "value_start c"
      using ser_items_start [OF False] by blast
    have len: "length (ser_items d xs) < m" using 9(5) False m by simp
    have first: "parse_value m (ser d x @ 0x2C # nl d @ c # t @ nl d' @ 0x5D # r) =
        Got x (0x2C # nl d @ c # t @ nl d' @ 0x5D # r)"
      using 9(1) [OF x _ lx] by simp
    have "parse_items m (ser_items d xs @ nl d' @ 0x5D # r) = Got xs r"
      using 9(2) [OF False xs False len] .
    then have rest: "parse_items m (c # t @ nl d' @ 0x5D # r) = Got xs r" using ct by simp
    from parse_items_more [OF first c rest] show ?thesis using False m ct by simp
  qed
next
  case (10 d)
  then show ?case by simp
next
  case (11 d k v kvs)
  have v: "json_value v" and rest: "json_members kvs" using 11(3) by simp_all
  then have vdef: "v \<noteq> JUndefined" by auto
  from 11(5) obtain m where m: "n = Suc m" by (cases n) simp_all
  obtain c t where ct: "ser d v = c # t" and c: "value_start c" using ser_start by blast
  have lv: "length (ser d v) \<le> m" using 11(5) m vdef by (simp add: Let_def)
  show ?case
  proof (cases "kvs = []")
    case True
    have "parse_value m (ser d v @ nl d' @ 0x7D # r) = Got v (nl d' @ 0x7D # r)"
      using 11(2) [OF refl vdef v _ lv] by simp
    from parse_members_last [OF this c, of "t @ nl d' @ 0x7D # r" k]
    show ?thesis using True m vdef ct by simp
  next
    case False
    then have body: "ser_members d kvs \<noteq> []" using ser_members_Nil [OF rest] by simp
    obtain u where u: "ser_members d kvs = 0x22 # u"
      using ser_members_start [OF rest False] by blast
    have len: "length (ser_members d kvs) < m" using 11(5) m vdef body by (simp add: Let_def)
    have first: "parse_value m (ser d v @ 0x2C # nl d @ 0x22 # u @ nl d' @ 0x7D # r) =
        Got v (0x2C # nl d @ 0x22 # u @ nl d' @ 0x7D # r)"
      using 11(2) [OF refl vdef v _ lv] by simp
    have "parse_members m (ser_members d kvs @ nl d' @ 0x7D # r) = Got kvs r"
      using 11(1) [OF rest False len] .
    then have more: "parse_members m (0x22 # u @ nl d' @ 0x7D # r) = Got kvs r" using u by simp
    from parse_members_more [OF first c _ more, of "t @ 0x2C # nl d @ 0x22 # u @ nl d' @ 0x7D # r" k]
    show ?thesis using False m vdef ct u by (simp add: Let_def)
  qed
qed

lemma JSON_round_trip:
  assumes "json_value v"
  shows "JSON_parse (JSON_stringify v) = Some (Inr v)"
proof -
  obtain c t where ct: "ser 0 v = c # t" and c: "value_start c" using ser_start by blast
  have "parse_value (2 * length (ser 0 v) + 2) (ser 0 v @ []) = Got v []"
    by (rule ser_parse(1) [OF assms]) simp_all
  then show ?thesis
    using skip_ws_start [OF c, of t]
    by (simp add: JSON_parse_def JSON_stringify_def ct skip_ws_def)
qed

subsection \<open>Exporting and importing a report\<close>

lemma utf16_not_index:
  assumes "\<not> is_digit (of_nat (of_char c))"
  shows "\<not> is_array_index (utf16 (c # cs))"
  using assms by (simp add: is_array_index_def utf16_def)

lemma letter_not_digit:
  "\<not> is_digit (of_nat (of_char CHR ''a''))" "\<not> is_digit (of_nat (of_char CHR ''c''))"
  "\<not> is_digit (of_nat (of_char CHR ''d''))" "\<not> is_digit (of_nat (of_char CHR ''m''))"
  "\<not> is_digit (of_nat (of_char CHR ''n''))" "\<not> is_digit (of_nat (of_char CHR ''r''))"
  "\<not> is_digit (of_nat (of_char CHR ''s''))" "\<not> is_digit (of_nat (of_char CHR ''t''))"
  by (simp_all add: is_digit_def)

lemmas name_not_index = letter_not_digit [THEN utf16_not_index]


lemma json_value_report_with: "json_value v \<Longrightarrow> json_value (report_with v)"
  by (simp add: report_with_def payload_of_def complete_section_def js_ordered_def
      name_not_index)

lemma missing_required_report_with: "missing_required (report_with v) = Inr False"
  by (simp add: report_with_def payload_of_def missing_required_obj obj_get_def)

lemma quote_not_Nil [simp]: "quote s @ t \<noteq> []"
  by (simp add: quote_def)

lemma stringify_infinite_report:
  "JSON_stringify (report_with (JNum PosInf)) = JSON_stringify (report_with JNull)"
  by (simp add: JSON_stringify_def report_with_def payload_of_def complete_section_def Let_def)

lemma power_two_ten: "(2::nat) ^ (4 * n) \<le> 10 ^ (2 * n)"
proof -
  have "((2::nat) ^ 4) ^ n \<le> (10 ^ 2) ^ n" by (rule power_mono) simp_all
  then show ?thesis by (simp only: power_mult)
qed

lemma big_literal: "(2::nat) ^ 1024 - 2 ^ 970 \<le> 1 * 10 ^ nat 999"
proof -
  have e: "4 * 256 = (1024::nat)" "2 * 256 = (512::nat)" by simp_all
  have a: "(2::nat) ^ 1024 \<le> 10 ^ 512" using power_two_ten [of 256] by (simp only: e)
  have b: "(10::nat) ^ 512 \<le> 10 ^ nat 999" by (rule power_increasing) simp_all
  have c: "(2::nat) ^ 1024 - 2 ^ 970 \<le> 2 ^ 1024" by (rule diff_le_self)
  have "(2::nat) ^ 1024 - 2 ^ 970 \<le> 10 ^ nat 999" by (rule order_trans [OF c order_trans [OF a b]])
  then show ?thesis by (simp only: mult_1)
qed

lemma number_of_overflow:
  assumes "0 \<le> e" and "2 ^ 1024 - 2 ^ 970 \<le> m * 10 ^ nat e"
  shows "number_of neg m e = Some (if neg then NegInf else PosInf)"
  unfolding number_of_def Let_def using assms by (simp only: if_True)

lemma parse_number_big:
  "parse_number (utf16 ''1e999'') = Got (JNum PosInf) []"
proof -
  have n: "number_of False 1 999 = Some PosInf"
    using number_of_overflow [of 999 1 False, OF _ big_literal] by simp
  have "parse_number (utf16 ''1e999'') =
      (case number_of False 1 999 of None \<Rightarrow> Beyond | Some n \<Rightarrow> Got (JNum n) [])"
    by (simp add: parse_number_def utf16_def Let_def is_digit_def number_frac_def number_exp_def
        digits_value_def)
  then show ?thesis by (simp only: n option.case)
qed

lemma parse_big:
  "JSON_parse (utf16 ''1e999'') = Some (Inr (JNum PosInf))"
proof -
  have s: "skip_ws (utf16 ''1e999'') = utf16 ''1e999''"
    by (simp add: skip_ws_def utf16_def is_json_ws_def)
  have "parse_value (Suc 11) (utf16 ''1e999'') = parse_number (utf16 ''1e999'')"
    unfolding utf16_def list.map by (rule parse_value_number) (simp add: is_digit_def)
  moreover have "2 * length (utf16 ''1e999'') + 2 = Suc 11" by (simp add: utf16_def)
  ultimately show ?thesis
    by (simp only: JSON_parse_def s parse_number_big parsed.case) (simp add: skip_ws_def)
qed

lemma chart_bundles_report_with:
  "chart_bundles (report_with v) =
     Inr (JObj [(utf16 ''nivel_risco'', JStr Alto)],
          JObj [(utf16 ''score_performance'', JNum (Fin 90))],
          JObj [(utf16 ''nivel_confiabilidade'', JStr Medio)],
          JObj [(utf16 ''cobertura_estimada'', v)])"
  unfolding report_with_def
  by (rule payload_of_bundles)
     (simp_all add: metricas_of_def complete_section_def obj_get_def js_or_def)

lemma js_add_percent_primitive:
  assumes "is_primitive x"
  shows "\<exists>s. js_add x (JStr (utf16 ''%'')) = Inr (JStr s)"
  using assms by (cases x) (simp_all add: js_add_def)

lemma displayMetrics_report_with:
  assumes "is_primitive v"
  shows "\<exists>m. displayMetrics (report_with v) = Inr m"
proof -
  obtain a where a: "get_prop (report_with v) (utf16 ''analises'') = Inr a"
    and ms: "metricas_of (js_or a (JObj [])) ''seguranca'' =
               Inr (JObj [(utf16 ''nivel_risco'', JStr Alto)])"
    and md: "metricas_of (js_or a (JObj [])) ''desempenho'' =
               Inr (JObj [(utf16 ''score_performance'', JNum (Fin 90))])"
    and mc: "metricas_of (js_or a (JObj [])) ''confiabilidade'' =
               Inr (JObj [(utf16 ''nivel_confiabilidade'', JStr Medio)])"
    and mt: "metricas_of (js_or a (JObj [])) ''testes'' =
               Inr (JObj [(utf16 ''cobertura_estimada'', v)])"
    using chart_bundles_report_with unfolding chart_bundles_Inr by blast
  have sec: "\<exists>x. security_card (JObj [(utf16 ''nivel_risco'', JStr Alto)]) = Inr x"
    by (simp add: security_card_def obj_get_def security_score_primitive js_or_def
        updateMetricCard_primitive)
  have perf: "\<exists>x. performance_card (JObj [(utf16 ''score_performance'', JNum (Fin 90))]) = Inr x"
    by (simp add: performance_card_def obj_get_def js_add_percent_number js_or_def
        updateMetricCard_primitive del: num_to_string.simps)
  have rel: "\<exists>x. reliability_card (JObj [(utf16 ''nivel_confiabilidade'', JStr Medio)]) = Inr x"
    by (simp add: reliability_card_def obj_get_def js_or_def updateMetricCard_primitive)
  obtain s where s: "js_add (js_or v (JNum (Fin 0))) (JStr (utf16 ''%'')) = Inr (JStr s)"
    using js_add_percent_primitive [OF js_or_primitive [OF assms]] by blast
  have tst: "\<exists>x. testing_card (JObj [(utf16 ''cobertura_estimada'', v)]) = Inr x"
  proof -
    have "is_primitive (js_or v (JNum (Fin 0)))" using assms by (rule js_or_primitive)
    then have "\<exists>x. updateMetricCard (JStr s) (js_or v (JNum (Fin 0))) (js_or v (JNum (Fin 0)))
        (JNum (Fin 0)) = Inr x"
      by (simp add: updateMetricCard_primitive)
    moreover have "js_or JUndefined (JNum (Fin 0)) = JNum (Fin 0)" by (simp add: js_or_def)
    ultimately show ?thesis by (simp add: testing_card_def obj_get_def Let_def s)
  qed
  from sec perf rel tst obtain x1 x2 x3 x4 where
    "security_card (JObj [(utf16 ''nivel_risco'', JStr Alto)]) = Inr x1"
    "performance_card (JObj [(utf16 ''score_performance'', JNum (Fin 90))]) = Inr x2"
    "reliability_card (JObj [(utf16 ''nivel_confiabilidade'', JStr Medio)]) = Inr x3"
    "testing_card (JObj [(utf16 ''cobertura_estimada'', v)]) = Inr x4"
    by blast
  then show ?thesis by (simp add: displayMetrics_def a ms md mc mt Let_def)
qed

lemma displayProblemsChart_report_with:
  "\<exists>p. displayProblemsChart (report_with v) = Inr p"
proof -
  have "displayProblemsChart (report_with v) =
      Inr [JNum (Fin (0 + 0)), JNum (Fin (0 + 0)), JNum (Fin (0 + 0)), JNum (Fin 0)]"
    by (rule displayProblemsChart_counts [OF chart_bundles_report_with])
       (simp_all add: obj_get_def count_of_def)
  then show ?thesis by blast
qed

lemma displayRecommendations_report_with: "displayRecommendations (report_with v) = Inr []"
  by (simp add: report_with_def complete_section_def eval_defs)

lemma formatDetailValue_primitive: "is_primitive v \<Longrightarrow> formatDetailValue v = Inr v"
  by (cases v) simp_all

lemma displayTechnicalDetails_report_with:
  assumes "is_primitive v"
  shows "\<exists>d. displayTechnicalDetails (report_with v) = Inr d"
  by (simp add: report_with_def complete_section_def eval_defs property_order_def name_not_index
      formatDetailValue_primitive [OF assms])

lemma displayRepoInfo_report_with: "displayRepoInfo (report_with v) = Inr ()"
  by (simp add: report_with_def payload_of_def displayRepoInfo_def obj_get_def js_or_def)

lemma displayResults_report_with:
  assumes "is_primitive v"
  shows "\<exists>view. displayResults (report_with v) = Inr view"
proof -
  obtain m p q d where "displayMetrics (report_with v) = Inr m"
    "displayProblemsChart (report_with v) = Inr p"
    "displayQualityChart (report_with v) = Inr q"
    "displayTechnicalDetails (report_with v) = Inr d"
    using displayMetrics_report_with [OF assms] displayProblemsChart_report_with
      displayQualityChart_total [OF chart_bundles_report_with]
      displayTechnicalDetails_report_with [OF assms] by blast
  then show ?thesis
    by (simp add: displayResults_after_charts [OF displayRepoInfo_report_with]
        displayRecommendations_report_with)
qed

lemma reader_onload_current:
  assumes "missing_required p = Inr False"
  shows "currentResults (reader_onload (Inr p) st) = p"
  using assms by (simp add: reader_onload_def split: sum.splits)

lemma validated_truthy:
  assumes "missing_required p = Inr False"
  shows "truthy p"
  using assms by (cases p) (simp_all add: missing_required_def)

lemma report_file_is_json:
  "str_includes (file_type (report_file now v)) (utf16 ''json'')"
  by (simp add: report_file_def utf16_def)

lemma follows_model_parse: "follows_model model_parse"
  by (simp add: follows_model_def model_parse_def)

lemma import_report_file:
  assumes "follows_model parse" and "JSON_parse (JSON_stringify R) = Some (Inr R')"
  shows "handleFile parse (report_file now R) st = reader_onload (Inr R') st"
proof -
  have "parse (JSON_stringify R) = Inr R'"
    using assms by (simp add: follows_model_def)
  then show ?thesis
    using report_file_is_json [of now R] by (simp add: handleFile_def) (simp add: report_file_def)
qed




end
